theory Spec2Isabelle
  imports Complex_Main "HOL-Library.Multiset"
begin

section \<open>The relational store\<close>

text \<open>
  The cart and order engine of the repository works on the PostgreSQL tables that
  \<^verbatim>\<open>sequelize.sync\<close> creates from the Sequelize models. A table is a list of rows in
  insertion order; a \<^verbatim>\<open>SELECT\<close> whose first row is taken (\<^verbatim>\<open>const [row] = ...\<close>,
  \<^verbatim>\<open>findOne\<close>) is \<^const>\<open>find\<close> on that list. Identifiers, stocks and the amounts of
  lines are the \<^verbatim>\<open>INTEGER\<close> columns of the models, taken as \<^typ>\<open>int\<close>. Prices are the
  \<^verbatim>\<open>DECIMAL(10, 2)\<close> columns, counted in cents. The ranges of the columns (32 bits, ten
  digits) are not modelled.

  Of the table \<^verbatim>\<open>Users\<close> only the column \<^verbatim>\<open>Email\<close> is kept, as the list of the
  registered emails: it is unique, and \<^verbatim>\<open>Orders.UserEmail\<close> and \<^verbatim>\<open>Carts.UserEmail\<close>
  reference it. The cart requests carry the token of a registered user, and the insert
  of \<^verbatim>\<open>createCart\<close> is taken to be for one. A rollback returns the store as it was
  when the transaction began, sequences included (PostgreSQL keeps the advance of a
  sequence; the identifiers handed out afterwards are fresh either way).

  Only the columns the cart and order code reads or writes are kept. The column
  \<^verbatim>\<open>Price\<close> occurs in three tables; it is \<open>Price\<close> for \<^verbatim>\<open>Records\<close>, \<open>LinePrice\<close> for
  \<^verbatim>\<open>CartDetails\<close> and \<open>ODPrice\<close> for \<^verbatim>\<open>OrderDetails\<close>. Likewise \<open>OrderUserEmail\<close>,
  \<open>OrderCartId\<close>, \<open>ODRecordId\<close> and \<open>ODAmount\<close> stand for the columns \<^verbatim>\<open>UserEmail\<close>,
  \<^verbatim>\<open>CartId\<close>, \<^verbatim>\<open>RecordId\<close> and \<^verbatim>\<open>Amount\<close> of the order tables.
\<close>

record record_row =
  IdRecord :: int
  Price :: int
  Stock :: int

record cart_row =
  IdCart :: int
  UserEmail :: string
  TotalPrice :: int
  Enabled :: bool

record cartdetail_row =
  IdCartDetail :: int
  CartId :: int
  RecordId :: int
  Amount :: int
  LinePrice :: int

record order_row =
  IdOrder :: int
  OrderUserEmail :: string
  PaymentMethod :: string
  Total :: int
  OrderCartId :: int

record orderdetail_row =
  IdOrderDetail :: int
  OrderId :: int
  ODRecordId :: int
  ODAmount :: int
  ODPrice :: int

text \<open>
  The \<open>next...\<close> fields are the sequences behind the \<^verbatim>\<open>autoIncrement\<close> primary keys.
\<close>

record db =
  Users :: "string list"
  Records :: "record_row list"
  Carts :: "cart_row list"
  CartDetails :: "cartdetail_row list"
  Orders :: "order_row list"
  OrderDetails :: "orderdetail_row list"
  nextIdCart :: int
  nextIdCartDetail :: int
  nextIdOrder :: int
  nextIdOrderDetail :: int

section \<open>Email normalisation\<close>

text \<open>
  JavaScript's \<^verbatim>\<open>toLowerCase\<close> and \<^verbatim>\<open>trim\<close>, and PostgreSQL's \<^verbatim>\<open>LOWER\<close> and \<^verbatim>\<open>TRIM\<close>,
  on ASCII strings. \<^verbatim>\<open>trim\<close> strips white space at both ends, \<^verbatim>\<open>TRIM\<close> strips blanks
  only.
\<close>

definition lowerChar :: "char \<Rightarrow> char" where
  \<comment> \<open>a capital letter has a code from 65 to 90; adding 32 to it sets bit 5\<close>
  "lowerChar c =
     (if 65 \<le> (of_char c :: nat) \<and> (of_char c :: nat) \<le> 90
      then Char (digit0 c) (digit1 c) (digit2 c) (digit3 c) (digit4 c) True (digit6 c) (digit7 c)
      else c)"

definition toLowerCase :: "string \<Rightarrow> string" where
  "toLowerCase s = map lowerChar s"

definition isWhiteSpace :: "char \<Rightarrow> bool" where
  "isWhiteSpace c = ((of_char c :: nat) \<in> {9, 10, 11, 12, 13, 32})"

definition trim :: "string \<Rightarrow> string" where
  "trim s = rev (dropWhile isWhiteSpace (rev (dropWhile isWhiteSpace s)))"

definition sqlTrim :: "string \<Rightarrow> string" where
  "sqlTrim s = rev (dropWhile (\<lambda>c. c = CHR '' '') (rev (dropWhile (\<lambda>c. c = CHR '' '') s)))"

section \<open>Numbers\<close>

text \<open>
  A JavaScript number that reaches an SQL statement is written into it as a decimal
  literal, so it is a rational here; sums and products of the controllers are taken
  exactly. PostgreSQL rounds a \<^verbatim>\<open>numeric\<close> value that is stored in an \<^verbatim>\<open>INTEGER\<close> column
  to the nearest integer, a tie away from zero; storing in \<^verbatim>\<open>DECIMAL(10, 2)\<close> does the
  same to the cents.
\<close>

definition pgRound :: "rat \<Rightarrow> int" where
  "pgRound x = (if 0 \<le> x then \<lfloor>x + 1 / 2\<rfloor> else - \<lfloor>- x + 1 / 2\<rfloor>)"

section \<open>SQL statements of the cart controllers\<close>

definition selectRecord :: "db \<Rightarrow> int \<Rightarrow> record_row option" where
  \<comment> \<open>\<^verbatim>\<open>SELECT * FROM "Records" WHERE "IdRecord" = :recordId\<close>, first row\<close>
  "selectRecord s recordId = find (\<lambda>r. IdRecord r = recordId) (Records s)"

definition selectActiveCart :: "db \<Rightarrow> string \<Rightarrow> cart_row option" where
  \<comment> \<open>\<^verbatim>\<open>SELECT * FROM "Carts" WHERE LOWER(TRIM("UserEmail")) = :email AND "Enabled" = true\<close>\<close>
  "selectActiveCart s e =
     find (\<lambda>c. toLowerCase (sqlTrim (UserEmail c)) = e \<and> Enabled c) (Carts s)"

definition selectCartDetail :: "db \<Rightarrow> int \<Rightarrow> int \<Rightarrow> cartdetail_row option" where
  \<comment> \<open>\<^verbatim>\<open>SELECT * FROM "CartDetails" WHERE "CartId" = :cartId AND "RecordId" = :recordId\<close>\<close>
  "selectCartDetail s cartId recordId =
     find (\<lambda>d. CartId d = cartId \<and> RecordId d = recordId) (CartDetails s)"

definition updateCartDetailAmount :: "db \<Rightarrow> int \<Rightarrow> rat \<Rightarrow> db" where
  \<comment> \<open>\<^verbatim>\<open>UPDATE "CartDetails" SET "Amount" = :newAmount WHERE "IdCartDetail" = :id\<close>\<close>
  "updateCartDetailAmount s ident newAmount =
     s\<lparr>CartDetails :=
         map (\<lambda>d. if IdCartDetail d = ident then d\<lparr>Amount := pgRound newAmount\<rparr> else d)
           (CartDetails s)\<rparr>"

definition insertCartDetail :: "db \<Rightarrow> int \<Rightarrow> int \<Rightarrow> rat \<Rightarrow> int \<Rightarrow> db" where
  \<comment> \<open>\<^verbatim>\<open>INSERT INTO "CartDetails" ("CartId", "RecordId", "Amount", "Price") VALUES (...)\<close>\<close>
  "insertCartDetail s cartId recordId amount price =
     s\<lparr>CartDetails := CartDetails s @
           [\<lparr>IdCartDetail = nextIdCartDetail s, CartId = cartId, RecordId = recordId,
             Amount = pgRound amount, LinePrice = price\<rparr>],
       nextIdCartDetail := nextIdCartDetail s + 1\<rparr>"

definition deleteCartDetail :: "db \<Rightarrow> int \<Rightarrow> db" where
  \<comment> \<open>\<^verbatim>\<open>DELETE FROM "CartDetails" WHERE "IdCartDetail" = :id\<close>\<close>
  "deleteCartDetail s ident =
     s\<lparr>CartDetails := filter (\<lambda>d. IdCartDetail d \<noteq> ident) (CartDetails s)\<rparr>"

definition addStock :: "db \<Rightarrow> int \<Rightarrow> rat \<Rightarrow> db" where
  \<comment> \<open>\<^verbatim>\<open>UPDATE "Records" SET "Stock" = "Stock" + :amount WHERE "IdRecord" = :recordId\<close>;
      the decrement of \<^verbatim>\<open>addToCart\<close> is the same statement with a negative amount\<close>
  "addStock s recordId amount =
     s\<lparr>Records :=
         map (\<lambda>r. if IdRecord r = recordId
                  then r\<lparr>Stock := pgRound (of_int (Stock r) + amount)\<rparr> else r)
           (Records s)\<rparr>"

definition addTotalPrice :: "db \<Rightarrow> int \<Rightarrow> rat \<Rightarrow> db" where
  \<comment> \<open>\<^verbatim>\<open>UPDATE "Carts" SET "TotalPrice" = "TotalPrice" + :priceToAdd WHERE "IdCart" = :cartId\<close>\<close>
  "addTotalPrice s cartId priceToAdd =
     s\<lparr>Carts :=
         map (\<lambda>c. if IdCart c = cartId
                  then c\<lparr>TotalPrice := pgRound (of_int (TotalPrice c) + priceToAdd)\<rparr> else c)
           (Carts s)\<rparr>"

section \<open>Requests and responses\<close>

text \<open>
  The body field \<^verbatim>\<open>amount\<close> after \<^verbatim>\<open>Number(amount)\<close>: absent, not a number, or a
  finite number, which need not be whole. (The API documentation of the routes declares
  \<^verbatim>\<open>amount\<close> and \<^verbatim>\<open>recordId\<close> as \<^verbatim>\<open>type: integer\<close>; the controllers do not check it.)
\<close>

datatype jsnum = Undefined | NaN | Num rat

record user_payload =
  payloadEmail :: string
  payloadRole :: string

record cart_request =
  reqEmail :: string
  reqRecordId :: "int option"
  reqAmount :: jsnum
  reqUser :: "user_payload option"

text \<open>
  One constructor for each response of the controllers. \<open>InsufficientStock\<close> is the
  400 answer \<^verbatim>\<open>Not enough stock\<close> with its \<^verbatim>\<open>availableStock\<close>; \<open>InvalidRemoval\<close> is the
  400 answer \<^verbatim>\<open>Cannot remove more items than are in the cart\<close> with its
  \<^verbatim>\<open>currentAmount\<close>; \<open>BadRequest\<close>, \<open>NotFound\<close> and \<open>ServerError\<close> are the other 400,
  404 and 500 answers with their message. \<open>ItemAdded\<close> carries \<^verbatim>\<open>updatedStock\<close> and
  \<^verbatim>\<open>cartId\<close>, \<open>ItemRemoved\<close> carries \<^verbatim>\<open>updatedStock\<close> and \<^verbatim>\<open>remainingInCart\<close>,
  \<open>OrderCreated\<close> carries \<^verbatim>\<open>orderId\<close>.
\<close>

datatype response =
    BadRequest string
  | InsufficientStock int
  | InvalidRemoval int
  | Unauthorized
  | Forbidden
  | NotFound string
  | ServerError string
  | ItemAdded int int
  | ItemRemoved int rat
  | OrderCreated int

text \<open>
  The checks at the head of \<^verbatim>\<open>addToCart\<close> and \<^verbatim>\<open>removeFromCart\<close>, which the two
  functions spell out identically: missing fields (\<^verbatim>\<open>!recordId\<close> holds for an absent
  identifier and for 0), the amount (\<^verbatim>\<open>isNaN(parsedAmount) || parsedAmount <= 0\<close>),
  authentication, and the owner of the cart. A request that passes yields the record
  identifier and \<^verbatim>\<open>parsedAmount\<close>.
\<close>

definition validateRequest :: "cart_request \<Rightarrow> response + (int \<times> rat)" where
  "validateRequest req =
     (if reqEmail req = [] \<or> reqRecordId req = None \<or> reqRecordId req = Some 0 \<or>
         reqAmount req = Undefined
      then Inl (BadRequest ''Missing required fields'')
      else
        (case (reqRecordId req, reqAmount req) of
           (Some recordId, Num parsedAmount) \<Rightarrow>
             if parsedAmount \<le> 0 then Inl (BadRequest ''Amount must be a number greater than 0'')
             else
               (case reqUser req of
                  None \<Rightarrow> Inl Unauthorized
                | Some u \<Rightarrow>
                    if toLowerCase (payloadEmail u) \<noteq> toLowerCase (reqEmail req) \<and>
                       payloadRole u \<noteq> ''Admin''
                    then Inl Forbidden
                    else Inr (recordId, parsedAmount))
         | _ \<Rightarrow> Inl (BadRequest ''Amount must be a number greater than 0'')))"

section \<open>Cart resolution\<close>

text \<open>
  \<^verbatim>\<open>cartService.createCart\<close>: \<^verbatim>\<open>Cart.findOrCreate\<close> on the trimmed, lower-cased
  email with \<^verbatim>\<open>Enabled: true\<close>; the row found, or else a new row with the defaults.
\<close>

definition createCart :: "string \<Rightarrow> bool \<Rightarrow> db \<Rightarrow> cart_row \<times> db" where
  "createCart userEmail enabled s =
     (let normalizedEmail = toLowerCase (trim userEmail) in
      case find (\<lambda>c. UserEmail c = normalizedEmail \<and> Enabled c) (Carts s) of
        Some cart \<Rightarrow> (cart, s)
      | None \<Rightarrow>
          (let cart = \<lparr>IdCart = nextIdCart s, UserEmail = normalizedEmail, TotalPrice = 0,
                       Enabled = enabled\<rparr>
           in (cart, s\<lparr>Carts := Carts s @ [cart], nextIdCart := nextIdCart s + 1\<rparr>)))"

section \<open>addToCart\<close>

text \<open>
  Every statement of \<^verbatim>\<open>addToCart\<close> runs in the transaction opened at its head. Each
  early answer rolls the transaction back: the store returned is the one received.

  When the user has no active cart, the function issues
  \<^verbatim>\<open>INSERT INTO "Carts" ... ON CONFLICT ("UserEmail") DO UPDATE ...\<close>. The table \<^verbatim>\<open>Carts\<close>
  of the model has a primary key on \<^verbatim>\<open>IdCart\<close> and no unique index on \<^verbatim>\<open>UserEmail\<close>, so
  PostgreSQL rejects the conflict target. That error is no unique violation; the inner
  handler throws it again and the outer one answers 500 after the rollback.

  After the commit the function reads the stock once more for its answer; a record
  that is gone makes \<^verbatim>\<open>updatedRecord.Stock\<close> throw, which is the 500 answer on the
  committed store.
\<close>

definition addToCart :: "cart_request \<Rightarrow> db \<Rightarrow> response \<times> db" where
  "addToCart req s =
     (case validateRequest req of
        Inl r \<Rightarrow> (r, s)
      | Inr (recordId, parsedAmount) \<Rightarrow>
          (case selectRecord s recordId of
             None \<Rightarrow> (NotFound ''Record not found'', s)
           | Some recordData \<Rightarrow>
               if of_int (Stock recordData) < parsedAmount
               then (InsufficientStock (Stock recordData), s)
               else
                 (case selectActiveCart s (toLowerCase (reqEmail req)) of
                    None \<Rightarrow>
                      (ServerError
                         ''We encountered an issue with your cart. Please try again later.'', s)
                  | Some cart \<Rightarrow>
                      (let s1 = (case selectCartDetail s (IdCart cart) recordId of
                                   Some existingCartItem \<Rightarrow>
                                     updateCartDetailAmount s (IdCartDetail existingCartItem)
                                       (of_int (Amount existingCartItem) + parsedAmount)
                                 | None \<Rightarrow>
                                     insertCartDetail s (IdCart cart) recordId parsedAmount
                                       (Price recordData));
                           s2 = addStock s1 recordId (- parsedAmount);
                           priceToAdd = of_int (Price recordData) * parsedAmount;
                           s3 = addTotalPrice s2 (IdCart cart) priceToAdd
                       in (case selectRecord s3 recordId of
                             Some updatedRecord \<Rightarrow>
                               (ItemAdded (Stock updatedRecord) (IdCart cart), s3)
                           | None \<Rightarrow> (ServerError ''Internal server error'', s3))))))"

section \<open>removeFromCart\<close>

text \<open>
  \<^verbatim>\<open>removeFromCart\<close> runs in one transaction as well. Without an active cart it calls
  \<^verbatim>\<open>createCart\<close> inside the transaction and goes on with the cart returned; the answers
  \<^verbatim>\<open>Item not found in cart\<close> and \<^verbatim>\<open>Cannot remove more items\<close> roll back, which drops
  a cart created on the way.
\<close>

definition removeFromCart :: "cart_request \<Rightarrow> db \<Rightarrow> response \<times> db" where
  "removeFromCart req s =
     (case validateRequest req of
        Inl r \<Rightarrow> (r, s)
      | Inr (recordId, parsedAmount) \<Rightarrow>
          (let (cart, s0) = (case selectActiveCart s (toLowerCase (reqEmail req)) of
                               Some c \<Rightarrow> (c, s)
                             | None \<Rightarrow> createCart (reqEmail req) True s)
           in case selectCartDetail s0 (IdCart cart) recordId of
                None \<Rightarrow> (NotFound ''Item not found in cart'', s)
              | Some cartDetail \<Rightarrow>
                  if of_int (Amount cartDetail) < parsedAmount
                  then (InvalidRemoval (Amount cartDetail), s)
                  else
                    (let newAmount = of_int (Amount cartDetail) - parsedAmount;
                         priceToDeduct = of_int (LinePrice cartDetail) * parsedAmount;
                         s1 = (if newAmount = 0 then deleteCartDetail s0 (IdCartDetail cartDetail)
                               else updateCartDetailAmount s0 (IdCartDetail cartDetail) newAmount);
                         s2 = addStock s1 recordId parsedAmount;
                         s3 = addTotalPrice s2 (IdCart cart) (- priceToDeduct)
                     in (case selectRecord s3 recordId of
                           Some updatedRecord \<Rightarrow>
                             (ItemRemoved (Stock updatedRecord)
                                (if newAmount > 0 then newAmount else 0), s3)
                         | None \<Rightarrow> (ServerError ''Internal server error'', s3)))))"


text \<open>
  The cart a removal works on: the active cart the controller selects, or else the one
  \<^verbatim>\<open>createCart\<close> returns, together with the store inside the transaction.
\<close>

definition removalCart :: "cart_request \<Rightarrow> db \<Rightarrow> cart_row \<times> db" where
  "removalCart req s =
     (case selectActiveCart s (toLowerCase (reqEmail req)) of
        Some c \<Rightarrow> (c, s)
      | None \<Rightarrow> createCart (reqEmail req) True s)"


section \<open>Database faults\<close>

text \<open>
  Order conversion and cart disabling are settled by what happens when a statement
  fails, so their statements carry a label and the functions take the predicate that
  says which statements fail. \<open>InsertOrderDetail r\<close> is the insert of the order line
  copied from the cart line of record \<open>r\<close>; \<open>UpdateStock r\<close> stands for the statements of
  the transaction that \<^verbatim>\<open>updateStock\<close> opens for record \<open>r\<close>.
\<close>

datatype stmt =
    FindActiveCart
  | SelectCartDetails
  | InsertOrder
  | InsertOrderDetail int
  | DeleteCartDetails
  | UpdateTotalPrice
  | UpdateStock int
  | SaveCart

type_synonym faults = "stmt \<Rightarrow> bool"

definition noFaults :: faults where
  "noFaults st = False"

text \<open>
  What a service function throws: an \<^verbatim>\<open>Error\<close> with its message, the database's
  error, the error of Sequelize for a model validator that rejects a row, its error for
  a rollback of a transaction that is finished, or a \<^verbatim>\<open>TypeError\<close> of JavaScript.
\<close>

datatype exn = Error string | DatabaseError | ValidationError | TransactionFinished | TypeError

section \<open>Services\<close>

definition getActiveCartByEmail :: "faults \<Rightarrow> string \<Rightarrow> db \<Rightarrow> exn + cart_row option" where
  \<comment> \<open>\<^verbatim>\<open>Cart.findOne({ where: { UserEmail: normalizedEmail, Enabled: true } })\<close>\<close>
  "getActiveCartByEmail fails email s =
     (if email = [] then Inl (Error ''Email is required'')
      else if fails FindActiveCart then Inl DatabaseError
      else Inr (find (\<lambda>c. UserEmail c = toLowerCase (trim email) \<and> Enabled c) (Carts s)))"

definition getCartDetailsByCartId :: "faults \<Rightarrow> int \<Rightarrow> db \<Rightarrow> cartdetail_row list" where
  \<comment> \<open>the \<^verbatim>\<open>catch\<close> block logs the error and returns \<^verbatim>\<open>[]\<close>\<close>
  "getCartDetailsByCartId fails cartId s =
     (if fails SelectCartDetails then []
      else filter (\<lambda>d. CartId d = cartId) (CartDetails s))"

text \<open>
  \<^verbatim>\<open>orderService.createOrder\<close>: \<^verbatim>\<open>Order.create\<close>. The column \<^verbatim>\<open>Orders.UserEmail\<close>
  references \<^verbatim>\<open>Users.Email\<close>: the insert is refused for an email that is not
  registered as it is spelled.
\<close>

definition createOrder ::
  "faults \<Rightarrow> string \<Rightarrow> string \<Rightarrow> int \<Rightarrow> int \<Rightarrow> db \<Rightarrow> exn + (order_row \<times> db)" where
  "createOrder fails userEmail paymentMethod orderTotal cartId s =
     (if fails InsertOrder then Inl DatabaseError
      else if userEmail \<in> set (Users s) then
        (let order = \<lparr>IdOrder = nextIdOrder s, OrderUserEmail = userEmail,
                       PaymentMethod = (if paymentMethod = [] then ''Credit Card''
                                        else paymentMethod),
                       Total = orderTotal, OrderCartId = cartId\<rparr>
         in Inr (order, s\<lparr>Orders := Orders s @ [order], nextIdOrder := nextIdOrder s + 1\<rparr>))
      else Inl DatabaseError)"

text \<open>
  \<^verbatim>\<open>orderService.createOrderDetail\<close>: \<^verbatim>\<open>OrderDetail.create\<close>. The model validates
  \<^verbatim>\<open>Amount\<close> with \<^verbatim>\<open>min: 1\<close> and \<^verbatim>\<open>Price\<close> with \<^verbatim>\<open>min: 0.01\<close> before it inserts.
\<close>

definition createOrderDetail :: "faults \<Rightarrow> int \<Rightarrow> cartdetail_row \<Rightarrow> db \<Rightarrow> exn + db" where
  "createOrderDetail fails orderId detail s =
     (if Amount detail < 1 then Inl ValidationError
      else if LinePrice detail < 1 then Inl ValidationError
      else if fails (InsertOrderDetail (RecordId detail)) then Inl DatabaseError
      else Inr (s\<lparr>OrderDetails := OrderDetails s @
                    [\<lparr>IdOrderDetail = nextIdOrderDetail s, OrderId = orderId,
                      ODRecordId = RecordId detail, ODAmount = Amount detail,
                      ODPrice = LinePrice detail\<rparr>],
                  nextIdOrderDetail := nextIdOrderDetail s + 1\<rparr>))"

text \<open>
  \<^verbatim>\<open>Promise.all(cartDetails.map(detail => orderService.createOrderDetail(...)))\<close>: every
  insert is issued before the first one settles, each in its own implicit transaction.
  A rejected insert rejects the whole, and the inserts that succeed are stored all the
  same. The inserts race for the sequence of \<^verbatim>\<open>OrderDetails\<close>: the list given to
  \<open>createOrderDetails\<close> is the cart lines in the order in which their inserts reach the
  database. The flag says that none was rejected.
\<close>

fun createOrderDetails :: "faults \<Rightarrow> int \<Rightarrow> cartdetail_row list \<Rightarrow> db \<Rightarrow> bool \<times> db" where
  "createOrderDetails fails orderId [] s = (True, s)"
| "createOrderDetails fails orderId (detail # details) s =
     (case createOrderDetail fails orderId detail s of
        Inl e \<Rightarrow> (False, snd (createOrderDetails fails orderId details s))
      | Inr s1 \<Rightarrow> createOrderDetails fails orderId details s1)"

definition removeAllDetailsFromCart :: "faults \<Rightarrow> int \<Rightarrow> db \<Rightarrow> exn + db" where
  \<comment> \<open>\<^verbatim>\<open>DELETE FROM "CartDetails" WHERE "CartId" = :cartId\<close>\<close>
  "removeAllDetailsFromCart fails cartId s =
     (if fails DeleteCartDetails then Inl DatabaseError
      else Inr (s\<lparr>CartDetails := filter (\<lambda>d. CartId d \<noteq> cartId) (CartDetails s)\<rparr>))"

definition updateCartTotalPrice :: "faults \<Rightarrow> int \<Rightarrow> rat \<Rightarrow> db \<Rightarrow> exn + db" where
  \<comment> \<open>\<^verbatim>\<open>Cart.findByPk(cartId)\<close>, then \<^verbatim>\<open>cart.increment('TotalPrice', { by: priceToAdd })\<close>\<close>
  "updateCartTotalPrice fails cartId priceToAdd s =
     (if fails UpdateTotalPrice then Inl DatabaseError
      else
        (case find (\<lambda>c. IdCart c = cartId) (Carts s) of
           None \<Rightarrow> Inl (Error ''Cart not found'')
         | Some cart \<Rightarrow> Inr (addTotalPrice s cartId priceToAdd)))"

section \<open>createOrderFromCart\<close>

text \<open>
  The controller opens no transaction and passes none to the services: every statement
  commits by itself. An error thrown by a service is caught at the end and answered
  with 500; what was written before stays written. The last two writes run under one
  \<^verbatim>\<open>Promise.all\<close>, so each of them takes effect unless it is the one that fails.
  \<^verbatim>\<open>OrderDate\<close> is the time of the call and is not part of the embedding.

  \<open>createOrderFromCartArriving\<close> is the function for any outcome of the race of the
  order line inserts: \<open>arrival\<close> gives the order in which the inserts of the cart lines
  reach the database, a permutation of the lines. \<open>createOrderFromCart\<close> is the run in
  which they arrive in the order of the cart lines.
\<close>

definition createOrderFromCartArriving ::
  "(cartdetail_row list \<Rightarrow> cartdetail_row list) \<Rightarrow> faults \<Rightarrow> string \<Rightarrow> db \<Rightarrow> response \<times> db" where
  "createOrderFromCartArriving arrival fails email s =
     (if email = [] then (BadRequest ''Email is required'', s)
      else
        (case getActiveCartByEmail fails email s of
           Inl e \<Rightarrow> (ServerError ''Failed to create order'', s)
         | Inr None \<Rightarrow> (BadRequest ''Cart is empty or not found'', s)
         | Inr (Some cart) \<Rightarrow>
             if TotalPrice cart \<le> 0 then (BadRequest ''Cart is empty or not found'', s)
             else
               (let cartDetails = getCartDetailsByCartId fails (IdCart cart) s in
                if length cartDetails = 0 then (BadRequest ''Cart is empty'', s)
                else
                  (case createOrder fails email ''Credit Card'' (TotalPrice cart) (IdCart cart) s of
                     Inl e \<Rightarrow> (ServerError ''Failed to create order'', s)
                   | Inr (order, s1) \<Rightarrow>
                       (case createOrderDetails fails (IdOrder order) (arrival cartDetails) s1 of
                          (False, s2) \<Rightarrow> (ServerError ''Failed to create order'', s2)
                        | (True, s2) \<Rightarrow>
                            (let cleared = removeAllDetailsFromCart fails (IdCart cart) s2;
                                 s3 = (case cleared of Inl e \<Rightarrow> s2 | Inr t \<Rightarrow> t);
                                 reset = updateCartTotalPrice fails (IdCart cart)
                                           (- of_int (TotalPrice cart)) s3;
                                 s4 = (case reset of Inl e \<Rightarrow> s3 | Inr t \<Rightarrow> t)
                             in if isl cleared \<or> isl reset
                                then (ServerError ''Failed to create order'', s4)
                                else (OrderCreated (IdOrder order), s4)))))))"

definition createOrderFromCart :: "faults \<Rightarrow> string \<Rightarrow> db \<Rightarrow> response \<times> db" where
  "createOrderFromCart fails email s =
     createOrderFromCartArriving (\<lambda>cartDetails. cartDetails) fails email s"

section \<open>disableCart and enableCart\<close>

definition setStock :: "db \<Rightarrow> int \<Rightarrow> int \<Rightarrow> db" where
  \<comment> \<open>\<^verbatim>\<open>UPDATE "Records" SET "Stock" = :newStock WHERE "IdRecord" = :id\<close>\<close>
  "setStock s ident newStock =
     s\<lparr>Records := map (\<lambda>r. if IdRecord r = ident then r\<lparr>Stock := newStock\<rparr> else r) (Records s)\<rparr>"

text \<open>
  \<^verbatim>\<open>recordService.updateStock(id, amount)\<close> opens a transaction of its own. It reads
  the record with \<^verbatim>\<open>const [results] = await sequelize.query(..., { type: "SELECT" })\<close>:
  a query of that type returns the rows, so \<^verbatim>\<open>results\<close> is the first row, and
  \<^verbatim>\<open>results[0]\<close> is the property \<^verbatim>\<open>0\<close> of that row, which no row has.

  Without a row \<^verbatim>\<open>results\<close> is undefined and \<^verbatim>\<open>results[0]\<close> throws a \<^verbatim>\<open>TypeError\<close>,
  which the \<^verbatim>\<open>catch\<close> block throws again after its rollback. With a row the record is
  undefined: the function rolls back and throws inside its \<^verbatim>\<open>try\<close>; the \<^verbatim>\<open>catch\<close> block
  then rolls back a second time, and that call throws first, so what leaves the function
  is the error of the second rollback. The update of the stock is never reached.
\<close>

definition elementZero :: "record_row \<Rightarrow> record_row option" where
  \<comment> \<open>\<^verbatim>\<open>(results as RecordItem[])[0]\<close> on a row\<close>
  "elementZero results = None"

definition updateStock :: "faults \<Rightarrow> int \<Rightarrow> int \<Rightarrow> db \<Rightarrow> (exn + int) \<times> db" where
  "updateStock fails ident amount s =
     (if fails (UpdateStock ident) then (Inl DatabaseError, s)
      else
        (case selectRecord s ident of
           None \<Rightarrow> (Inl TypeError, s)
         | Some results \<Rightarrow>
             (case elementZero results of
                None \<Rightarrow> (Inl TransactionFinished, s)
              | Some record \<Rightarrow>
                  (let currentStock = Stock record;
                       newStock = currentStock + amount
                   in if newStock < 0 then (Inl TransactionFinished, s)
                      else (Inr newStock, setStock s ident newStock)))))"

text \<open>The loop \<^verbatim>\<open>for (const detail of cartDetails) await recordService.updateStock(...)\<close>.\<close>

fun returnStock :: "faults \<Rightarrow> cartdetail_row list \<Rightarrow> db \<Rightarrow> (exn + unit) \<times> db" where
  "returnStock fails [] s = (Inr (), s)"
| "returnStock fails (detail # details) s =
     (case updateStock fails (RecordId detail) (Amount detail) s of
        (Inl e, s1) \<Rightarrow> (Inl e, s1)
      | (Inr newStock, s1) \<Rightarrow> returnStock fails details s1)"

definition saveEnabled :: "db \<Rightarrow> int \<Rightarrow> bool \<Rightarrow> db" where
  \<comment> \<open>\<^verbatim>\<open>cart.save\<close> after \<^verbatim>\<open>cart.Enabled = false\<close>: the update of that column by primary key\<close>
  "saveEnabled s cartId enabled =
     s\<lparr>Carts := map (\<lambda>c. if IdCart c = cartId then c\<lparr>Enabled := enabled\<rparr> else c) (Carts s)\<rparr>"

text \<open>
  \<^verbatim>\<open>cartService.disableCart\<close> reads the active cart, opens a transaction \<^verbatim>\<open>t\<close> and hands
  it to \<^verbatim>\<open>getCartDetailsByCartId\<close> and to \<^verbatim>\<open>updateStock\<close>. Both are declared without a
  transaction parameter, so the argument is dropped: the read runs outside \<^verbatim>\<open>t\<close>, and
  every \<^verbatim>\<open>updateStock\<close> works in the transaction it opens itself. Only \<^verbatim>\<open>cart.save\<close>
  runs in \<^verbatim>\<open>t\<close>. The function returns the cart identifier or throws.
\<close>

definition disableCart :: "faults \<Rightarrow> string \<Rightarrow> db \<Rightarrow> (exn + int) \<times> db" where
  "disableCart fails email s =
     (case getActiveCartByEmail fails email s of
        Inl e \<Rightarrow> (Inl e, s)
      | Inr None \<Rightarrow> (Inl (Error ''No active cart found for this user to disable''), s)
      | Inr (Some cart) \<Rightarrow>
          (let cartDetails = getCartDetailsByCartId fails (IdCart cart) s in
           case returnStock fails cartDetails s of
             (Inl e, s1) \<Rightarrow> (Inl e, s1)
           | (Inr u, s1) \<Rightarrow>
               if fails SaveCart then (Inl DatabaseError, s1)
               else (Inr (IdCart cart), saveEnabled s1 (IdCart cart) False)))"

text \<open>
  \<^verbatim>\<open>cartService.enableCart\<close>: one \<^verbatim>\<open>Cart.update({ Enabled: true }, { where: { UserEmail:
  email, Enabled: false }, returning: true })\<close>, on the email as given. It returns the
  first row updated, or throws when no row was.
\<close>

definition enableCart :: "string \<Rightarrow> db \<Rightarrow> (exn + cart_row) \<times> db" where
  "enableCart email s =
     (let affectedRows =
            map (\<lambda>c. c\<lparr>Enabled := True\<rparr>)
              (filter (\<lambda>c. UserEmail c = email \<and> Enabled c = False) (Carts s));
          s1 = s\<lparr>Carts := map (\<lambda>c. if UserEmail c = email \<and> Enabled c = False
                                     then c\<lparr>Enabled := True\<rparr> else c) (Carts s)\<rparr>
      in case affectedRows of
           [] \<Rightarrow> (Inl (Error ''No disabled cart found for this user to enable''), s1)
         | row # rows \<Rightarrow> (Inr row, s1))"

definition activeCarts :: "db \<Rightarrow> string \<Rightarrow> cart_row list" where
  "activeCarts s email = filter (\<lambda>c. UserEmail c = email \<and> Enabled c) (Carts s)"

section \<open>Catalog price change\<close>

definition updatePrice :: "db \<Rightarrow> int \<Rightarrow> int \<Rightarrow> db" where
  \<comment> \<open>\<^verbatim>\<open>recordService.update(id, { Price })\<close>:
      \<^verbatim>\<open>UPDATE "Records" SET "Price" = :price WHERE "IdRecord" = :id\<close>\<close>
  "updatePrice s ident price =
     s\<lparr>Records := map (\<lambda>r. if IdRecord r = ident then r\<lparr>Price := price\<rparr> else r) (Records s)\<rparr>"

section \<open>Well-formed stores, stock and reservations\<close>

text \<open>
  What the schema guarantees: primary keys are unique and were drawn from their
  sequence, and a cart line references an existing cart and an existing record.
\<close>

definition wf :: "db \<Rightarrow> bool" where
  "wf s \<longleftrightarrow>
     distinct (map IdRecord (Records s)) \<and>
     distinct (map IdCart (Carts s)) \<and>
     distinct (map IdCartDetail (CartDetails s)) \<and>
     (\<forall>c \<in> set (Carts s). IdCart c < nextIdCart s) \<and>
     (\<forall>d \<in> set (CartDetails s).
        IdCartDetail d < nextIdCartDetail s \<and>
        CartId d \<in> IdCart ` set (Carts s) \<and>
        RecordId d \<in> IdRecord ` set (Records s))"

definition stockOf :: "db \<Rightarrow> int \<Rightarrow> int option" where
  "stockOf s recordId = map_option Stock (selectRecord s recordId)"

text \<open>The reservations on an item: the amounts of all cart lines that hold it.\<close>

definition reserved :: "db \<Rightarrow> int \<Rightarrow> int" where
  "reserved s recordId =
     sum_list (map Amount (filter (\<lambda>d. RecordId d = recordId) (CartDetails s)))"

datatype cart_op = AddItem cart_request | RemoveItem cart_request

fun applyOp :: "cart_op \<Rightarrow> db \<Rightarrow> db" where
  "applyOp (AddItem req) s = snd (addToCart req s)"
| "applyOp (RemoveItem req) s = snd (removeFromCart req s)"

fun run :: "cart_op list \<Rightarrow> db \<Rightarrow> db" where
  "run [] s = s"
| "run (x # xs) s = run xs (applyOp x s)"

text \<open>A request whose amount is a whole number.\<close>

definition integralRequest :: "cart_request \<Rightarrow> bool" where
  "integralRequest req = (case reqAmount req of Num a \<Rightarrow> of_int \<lfloor>a\<rfloor> = a | _ \<Rightarrow> True)"

fun integralOp :: "cart_op \<Rightarrow> bool" where
  "integralOp (AddItem req) = integralRequest req"
| "integralOp (RemoveItem req) = integralRequest req"

section \<open>Registration and the operations of the API\<close>

text \<open>
  \<^verbatim>\<open>userService.createUser\<close>, the only caller of \<^verbatim>\<open>createCart\<close> besides
  \<^verbatim>\<open>removeFromCart\<close>: in one transaction it inserts the user under the trimmed,
  lower-cased email and calls \<^verbatim>\<open>createCart\<close> for it. The password and the role do not
  matter here. \<open>validates\<close> stands for the validators of the \<^verbatim>\<open>User\<close> model on the
  email (\<^verbatim>\<open>isEmail\<close>, \<^verbatim>\<open>notEmpty\<close>, \<^verbatim>\<open>len: [5, 100]\<close>), which Sequelize runs; an email
  that is registered already violates the unique index of \<^verbatim>\<open>Users.Email\<close>.
\<close>

definition createUser :: "(string \<Rightarrow> bool) \<Rightarrow> string \<Rightarrow> db \<Rightarrow> (exn + string) \<times> db" where
  "createUser validates email s =
     (if email = [] then (Inl (Error ''Email and password are required''), s)
      else
        (let normalizedEmail = toLowerCase (trim email) in
         if validates normalizedEmail then
           (if normalizedEmail \<in> set (Users s) then (Inl DatabaseError, s)
            else
              (let s1 = s\<lparr>Users := Users s @ [normalizedEmail]\<rparr>;
                   (cart, s2) = createCart normalizedEmail True s1
               in if IdCart cart = 0
                  then (Inl (Error ''Failed to create a cart for the user.''), s)
                  else (Inr normalizedEmail, s2)))
         else (Inl ValidationError, s)))"

datatype api_op =
    Register string
  | AddToCart cart_request
  | RemoveFromCart cart_request
  | DisableCart faults string
  | EnableCart string
  | CreateOrder "cartdetail_row list \<Rightarrow> cartdetail_row list" faults string

fun applyApi :: "(string \<Rightarrow> bool) \<Rightarrow> api_op \<Rightarrow> db \<Rightarrow> db" where
  "applyApi validates (Register email) s = snd (createUser validates email s)"
| "applyApi validates (AddToCart req) s = snd (addToCart req s)"
| "applyApi validates (RemoveFromCart req) s = snd (removeFromCart req s)"
| "applyApi validates (DisableCart fails email) s = snd (disableCart fails email s)"
| "applyApi validates (EnableCart email) s = snd (enableCart email s)"
| "applyApi validates (CreateOrder arrival fails email) s =
     snd (createOrderFromCartArriving arrival fails email s)"

fun runApi :: "(string \<Rightarrow> bool) \<Rightarrow> api_op list \<Rightarrow> db \<Rightarrow> db" where
  "runApi validates [] s = s"
| "runApi validates (x # xs) s = runApi validates xs (applyApi validates x s)"

text \<open>
  Every cart belongs to a registered email, and no email owns two carts. The store
  after \<^verbatim>\<open>sequelize.sync\<close> has no rows.
\<close>

definition oneCartPerUser :: "db \<Rightarrow> bool" where
  "oneCartPerUser s \<longleftrightarrow>
     distinct (map UserEmail (Carts s)) \<and> set (map UserEmail (Carts s)) \<subseteq> set (Users s)"

text \<open>
  What an operation that inserts no cart and no cart line leaves in place: the users,
  the records, the two sequences, the identifiers and owners of the carts in their
  order, and of the cart lines a selection.
\<close>

definition cartFrame :: "db \<Rightarrow> db \<Rightarrow> bool" where
  "cartFrame s t \<longleftrightarrow>
     Users t = Users s \<and> Records t = Records s \<and>
     nextIdCart t = nextIdCart s \<and> nextIdCartDetail t = nextIdCartDetail s \<and>
     map IdCart (Carts t) = map IdCart (Carts s) \<and>
     map UserEmail (Carts t) = map UserEmail (Carts s) \<and>
     (\<exists>P. CartDetails t = filter P (CartDetails s))"

definition emptyStore :: db where
  "emptyStore =
     \<lparr>Users = [], Records = [], Carts = [], CartDetails = [], Orders = [], OrderDetails = [],
      nextIdCart = 1, nextIdCartDetail = 1, nextIdOrder = 1, nextIdOrderDetail = 1\<rparr>"

section \<open>Example stores\<close>

definition userRequest :: "string \<Rightarrow> int \<Rightarrow> rat \<Rightarrow> cart_request" where
  "userRequest email recordId amount =
     \<lparr>reqEmail = email, reqRecordId = Some recordId, reqAmount = Num amount,
      reqUser = Some \<lparr>payloadEmail = email, payloadRole = ''User''\<rparr>\<rparr>"

text \<open>Item 1 with stock 10 at 3.00, and the empty active cart of one user.\<close>

definition shopA :: db where
  "shopA =
     \<lparr>Users = [''u@x''],
      Records = [\<lparr>IdRecord = 1, Price = 300, Stock = 10\<rparr>],
      Carts = [\<lparr>IdCart = 1, UserEmail = ''u@x'', TotalPrice = 0, Enabled = True\<rparr>],
      CartDetails = [], Orders = [], OrderDetails = [],
      nextIdCart = 2, nextIdCartDetail = 1, nextIdOrder = 1, nextIdOrderDetail = 1\<rparr>"

text \<open>A cart with two of item 1 at 10.00 and one of item 2 at 5.00, total 25.00.\<close>

definition shopAB :: db where
  "shopAB =
     \<lparr>Users = [''u@x''],
      Records = [\<lparr>IdRecord = 1, Price = 1000, Stock = 8\<rparr>,
                 \<lparr>IdRecord = 2, Price = 500, Stock = 4\<rparr>],
      Carts = [\<lparr>IdCart = 1, UserEmail = ''u@x'', TotalPrice = 2500, Enabled = True\<rparr>],
      CartDetails = [\<lparr>IdCartDetail = 1, CartId = 1, RecordId = 1, Amount = 2, LinePrice = 1000\<rparr>,
                     \<lparr>IdCartDetail = 2, CartId = 1, RecordId = 2, Amount = 1, LinePrice = 500\<rparr>],
      Orders = [], OrderDetails = [],
      nextIdCart = 2, nextIdCartDetail = 3, nextIdOrder = 1, nextIdOrderDetail = 1\<rparr>"

text \<open>
  A cart with two of item 1 added at 10.00, after the catalog price of item 1 went up
  to 15.00.
\<close>

definition shopRepriced :: db where
  "shopRepriced =
     \<lparr>Users = [''u@x''],
      Records = [\<lparr>IdRecord = 1, Price = 1500, Stock = 8\<rparr>],
      Carts = [\<lparr>IdCart = 1, UserEmail = ''u@x'', TotalPrice = 2000, Enabled = True\<rparr>],
      CartDetails = [\<lparr>IdCartDetail = 1, CartId = 1, RecordId = 1, Amount = 2, LinePrice = 1000\<rparr>],
      Orders = [], OrderDetails = [],
      nextIdCart = 2, nextIdCartDetail = 2, nextIdOrder = 1, nextIdOrderDetail = 1\<rparr>"

text \<open>A user with two disabled carts and no active one.\<close>

definition shopTwoDisabled :: db where
  "shopTwoDisabled =
     \<lparr>Users = [''u@x''],
      Records = [\<lparr>IdRecord = 1, Price = 300, Stock = 10\<rparr>],
      Carts = [\<lparr>IdCart = 1, UserEmail = ''u@x'', TotalPrice = 0, Enabled = False\<rparr>,
               \<lparr>IdCart = 2, UserEmail = ''u@x'', TotalPrice = 0, Enabled = False\<rparr>],
      CartDetails = [], Orders = [], OrderDetails = [],
      nextIdCart = 3, nextIdCartDetail = 1, nextIdOrder = 1, nextIdOrderDetail = 1\<rparr>"

section \<open>Rounding and normalisation\<close>


lemma pgRound_of_int [simp]: "pgRound (of_int k) = k"
proof (cases "0 \<le> k")
  case True
  have "\<lfloor>(of_int k :: rat) + 1 / 2\<rfloor> = k" by (rule floor_unique) simp_all
  with True show ?thesis by (simp add: pgRound_def)
next
  case False
  have "\<lfloor>- (of_int k :: rat) + 1 / 2\<rfloor> = - k" by (rule floor_unique) simp_all
  with False show ?thesis by (simp add: pgRound_def)
qed

lemma pgRound_int_arith [simp]:
  "pgRound (of_int a + of_int b) = a + b"
  "pgRound (of_int a - of_int b) = a - b"
  "pgRound (of_int a + - of_int b) = a - b"
  "pgRound (of_int a + of_int b * of_int c) = a + b * c"
  "pgRound (of_int a + - (of_int b * of_int c)) = a - b * c"
  "pgRound (of_int a - of_int b * of_int c) = a - b * c"
  using pgRound_of_int [of "a + b"] pgRound_of_int [of "a - b"]
    pgRound_of_int [of "a + b * c"] pgRound_of_int [of "a - b * c"]
  by simp_all

lemma lowerChar_idem: "lowerChar (lowerChar c) = lowerChar c"
  by (cases c) (auto simp: lowerChar_def)

lemma isWhiteSpace_lowerChar: "isWhiteSpace (lowerChar c) = isWhiteSpace c"
  by (cases c) (auto simp: lowerChar_def isWhiteSpace_def)

section \<open>Lists and the SQL statements\<close>

lemma find_SomeD: "find P xs = Some x \<Longrightarrow> x \<in> set xs \<and> P x"
  by (induction xs) (auto split: if_splits)

lemma find_NoneD: "find P xs = None \<Longrightarrow> x \<in> set xs \<Longrightarrow> \<not> P x"
  by (induction xs) (auto split: if_splits)

lemma find_None_iff2: "find P xs = None \<longleftrightarrow> (\<forall>x \<in> set xs. \<not> P x)"
  by (induction xs) auto

lemma find_map_pres:
  assumes "\<And>x. P (f x) = P x"
  shows "find P (map f xs) = map_option f (find P xs)"
  by (induction xs) (simp_all add: assms)

lemma find_append_None: "find P xs = None \<Longrightarrow> find P (xs @ ys) = find P ys"
  by (induction xs) (auto split: if_splits)

lemma filter_empty_find: "filter P xs = [] \<Longrightarrow> find P xs = None"
  by (simp add: find_None_iff2 filter_empty_conv)

lemma map_upd_absent:
  "k \<notin> key ` set xs \<Longrightarrow> map (\<lambda>x. if key x = k then f x else x) xs = xs"
  by (induction xs) auto

lemma map_key_upd:
  assumes "\<And>x. key (g x) = key x"
  shows "map key (map g xs) = map key xs"
  by (induction xs) (simp_all add: assms)

lemma ball_upd:
  assumes "\<And>x. P (g x) = P x"
  shows "(\<forall>x \<in> set (map g xs). P x) = (\<forall>x \<in> set xs. P x)"
  by (induction xs) (simp_all add: assms)

lemma sum_upd_distinct:
  assumes "distinct (map IdCartDetail ds)" and "d \<in> set ds"
  shows "sum_list (map Amount (filter (\<lambda>x. RecordId x = rid)
           (map (\<lambda>x. if IdCartDetail x = IdCartDetail d then x\<lparr>Amount := a\<rparr> else x) ds))) =
         sum_list (map Amount (filter (\<lambda>x. RecordId x = rid) ds)) +
           (if RecordId d = rid then a - Amount d else 0)"
  using assms
proof (induction ds)
  case Nil
  then show ?case by simp
next
  case (Cons x xs)
  show ?case
  proof (cases "x = d")
    case True
    with Cons.prems have "IdCartDetail d \<notin> IdCartDetail ` set xs" by auto
    then have "map (\<lambda>x. if IdCartDetail x = IdCartDetail d then x\<lparr>Amount := a\<rparr> else x) xs = xs"
      by (rule map_upd_absent)
    with True show ?thesis by simp
  next
    case False
    with Cons.prems have "d \<in> set xs" and "distinct (map IdCartDetail xs)"
      and "IdCartDetail x \<noteq> IdCartDetail d" by force+
    with Cons.IH show ?thesis by simp
  qed
qed

lemma sum_del_distinct:
  assumes "distinct (map IdCartDetail ds)" and "d \<in> set ds"
  shows "sum_list (map Amount (filter (\<lambda>x. RecordId x = rid)
           (filter (\<lambda>x. IdCartDetail x \<noteq> IdCartDetail d) ds))) =
         sum_list (map Amount (filter (\<lambda>x. RecordId x = rid) ds)) -
           (if RecordId d = rid then Amount d else 0)"
  using assms
proof (induction ds)
  case Nil
  then show ?case by simp
next
  case (Cons x xs)
  show ?case
  proof (cases "x = d")
    case True
    with Cons.prems have "\<forall>y \<in> set xs. IdCartDetail y \<noteq> IdCartDetail d"
      by (auto simp: image_iff)
    then have "filter (\<lambda>x. IdCartDetail x \<noteq> IdCartDetail d) xs = xs"
      by (simp add: filter_id_conv)
    with True show ?thesis by simp
  next
    case False
    with Cons.prems have "d \<in> set xs" and "distinct (map IdCartDetail xs)"
      and "IdCartDetail x \<noteq> IdCartDetail d" by force+
    with Cons.IH show ?thesis by simp
  qed
qed

lemma stockOf_addStock:
  "stockOf (addStock s r a) rid =
     map_option (\<lambda>x. if rid = r then pgRound (of_int x + a) else x) (stockOf s rid)"
proof -
  have h: "find (\<lambda>x. IdRecord x = rid)
          (map (\<lambda>x. if IdRecord x = r then x\<lparr>Stock := pgRound (of_int (Stock x) + a)\<rparr> else x) rs) =
        map_option (\<lambda>x. if IdRecord x = r then x\<lparr>Stock := pgRound (of_int (Stock x) + a)\<rparr> else x)
          (find (\<lambda>x. IdRecord x = rid) rs)" for rs :: "record_row list"
    by (induction rs) auto
  show ?thesis
    by (cases "find (\<lambda>x. IdRecord x = rid) (Records s)")
       (auto simp: stockOf_def selectRecord_def addStock_def h dest: find_SomeD)
qed

lemma stockOf_simps [simp]:
  "stockOf (updateCartDetailAmount s i a) rid = stockOf s rid"
  "stockOf (insertCartDetail s c r a p) rid = stockOf s rid"
  "stockOf (deleteCartDetail s i) rid = stockOf s rid"
  "stockOf (addTotalPrice s c q) rid = stockOf s rid"
  by (simp_all add: stockOf_def selectRecord_def updateCartDetailAmount_def
        insertCartDetail_def deleteCartDetail_def addTotalPrice_def)

lemma reserved_simps [simp]:
  "reserved (addStock s r a) rid = reserved s rid"
  "reserved (addTotalPrice s c q) rid = reserved s rid"
  "reserved (insertCartDetail s c r a p) rid = reserved s rid + (if r = rid then pgRound a else 0)"
  by (simp_all add: reserved_def addStock_def addTotalPrice_def insertCartDetail_def)

lemma reserved_update:
  "wf s \<Longrightarrow> d \<in> set (CartDetails s) \<Longrightarrow>
   reserved (updateCartDetailAmount s (IdCartDetail d) a) rid =
     reserved s rid + (if RecordId d = rid then pgRound a - Amount d else 0)"
  unfolding reserved_def updateCartDetailAmount_def wf_def
  using sum_upd_distinct [of "CartDetails s" d rid "pgRound a"] by simp

lemma reserved_delete:
  "wf s \<Longrightarrow> d \<in> set (CartDetails s) \<Longrightarrow>
   reserved (deleteCartDetail s (IdCartDetail d)) rid =
     reserved s rid - (if RecordId d = rid then Amount d else 0)"
  unfolding reserved_def deleteCartDetail_def wf_def
  using sum_del_distinct [of "CartDetails s" d rid] by simp

lemma addStock_fields [simp]:
  "Carts (addStock s r a) = Carts s"
  "CartDetails (addStock s r a) = CartDetails s"
  "nextIdCart (addStock s r a) = nextIdCart s"
  "nextIdCartDetail (addStock s r a) = nextIdCartDetail s"
  by (simp_all add: addStock_def)

lemma addStock_ids [simp]: "map IdRecord (Records (addStock s r a)) = map IdRecord (Records s)"
  unfolding addStock_def by (simp del: map_map) (rule map_key_upd, simp)

lemma addStock_idset [simp]: "IdRecord ` set (Records (addStock s r a)) = IdRecord ` set (Records s)"
  using addStock_ids [of s r a] by (metis set_map)

lemma wf_addStock [simp]: "wf (addStock s r a) = wf s"
  by (simp add: wf_def)

lemma addTotalPrice_fields [simp]:
  "Records (addTotalPrice s c q) = Records s"
  "CartDetails (addTotalPrice s c q) = CartDetails s"
  "nextIdCart (addTotalPrice s c q) = nextIdCart s"
  "nextIdCartDetail (addTotalPrice s c q) = nextIdCartDetail s"
  by (simp_all add: addTotalPrice_def)

lemma addTotalPrice_ids [simp]: "map IdCart (Carts (addTotalPrice s c q)) = map IdCart (Carts s)"
  unfolding addTotalPrice_def by (simp del: map_map) (rule map_key_upd, simp)

lemma addTotalPrice_idset [simp]: "IdCart ` set (Carts (addTotalPrice s c q)) = IdCart ` set (Carts s)"
  using addTotalPrice_ids [of s c q] by (metis set_map)

lemma addTotalPrice_bound [simp]:
  "(\<forall>x \<in> set (Carts (addTotalPrice s c q)). IdCart x < n) = (\<forall>x \<in> set (Carts s). IdCart x < n)"
  unfolding addTotalPrice_def by (simp del: set_map) (rule ball_upd, simp)

lemma wf_addTotalPrice [simp]: "wf (addTotalPrice s c q) = wf s"
  by (simp add: wf_def)

lemma updateCartDetailAmount_fields [simp]:
  "Records (updateCartDetailAmount s i a) = Records s"
  "Carts (updateCartDetailAmount s i a) = Carts s"
  "nextIdCart (updateCartDetailAmount s i a) = nextIdCart s"
  "nextIdCartDetail (updateCartDetailAmount s i a) = nextIdCartDetail s"
  by (simp_all add: updateCartDetailAmount_def)

lemma updateCartDetailAmount_ids [simp]:
  "map IdCartDetail (CartDetails (updateCartDetailAmount s i a)) = map IdCartDetail (CartDetails s)"
  unfolding updateCartDetailAmount_def by (simp del: map_map) (rule map_key_upd, simp)

lemma updateCartDetailAmount_bound [simp]:
  "(\<forall>d \<in> set (CartDetails (updateCartDetailAmount s i a)).
      IdCartDetail d < n \<and> CartId d \<in> A \<and> RecordId d \<in> B) =
   (\<forall>d \<in> set (CartDetails s). IdCartDetail d < n \<and> CartId d \<in> A \<and> RecordId d \<in> B)"
  unfolding updateCartDetailAmount_def by (simp del: set_map) (rule ball_upd, simp)

lemma wf_updateCartDetailAmount [simp]: "wf (updateCartDetailAmount s i a) = wf s"
  by (simp add: wf_def)

lemma wf_deleteCartDetail: "wf s \<Longrightarrow> wf (deleteCartDetail s i)"
  by (auto simp: wf_def deleteCartDetail_def distinct_map_filter)

lemma wf_insertCartDetail:
  "wf s \<Longrightarrow> c \<in> IdCart ` set (Carts s) \<Longrightarrow> r \<in> IdRecord ` set (Records s) \<Longrightarrow>
   wf (insertCartDetail s c r a p)"
  by (fastforce simp: wf_def insertCartDetail_def)

lemma wf_createCart: "wf s \<Longrightarrow> wf (snd (createCart e b s))"
  by (fastforce simp: wf_def createCart_def Let_def split: option.splits)

lemma selectRecord_frame [simp]:
  "selectRecord (updateCartDetailAmount s i a) rid = selectRecord s rid"
  "selectRecord (insertCartDetail s c r a p) rid = selectRecord s rid"
  "selectRecord (deleteCartDetail s i) rid = selectRecord s rid"
  "selectRecord (addTotalPrice s c q) rid = selectRecord s rid"
  by (simp_all add: selectRecord_def updateCartDetailAmount_def
        insertCartDetail_def deleteCartDetail_def)

lemma selectRecord_in: "selectRecord s rid = Some r \<Longrightarrow> r \<in> set (Records s) \<and> IdRecord r = rid"
  unfolding selectRecord_def by (drule find_SomeD) simp

lemma selectActiveCart_in: "selectActiveCart s e = Some c \<Longrightarrow> c \<in> set (Carts s) \<and> Enabled c"
  unfolding selectActiveCart_def by (drule find_SomeD) simp

lemma selectCartDetail_in:
  "selectCartDetail s c r = Some d \<Longrightarrow> d \<in> set (CartDetails s) \<and> CartId d = c \<and> RecordId d = r"
  unfolding selectCartDetail_def by (drule find_SomeD) simp

lemma stockOf_Some: "stockOf s rid = Some st \<longleftrightarrow> (\<exists>r. selectRecord s rid = Some r \<and> Stock r = st)"
  by (auto simp: stockOf_def)

lemma selectActiveCart_addTotalPrice:
  "selectActiveCart (addTotalPrice s c q) e =
     map_option (\<lambda>x. if IdCart x = c then x\<lparr>TotalPrice := pgRound (of_int (TotalPrice x) + q)\<rparr> else x)
       (selectActiveCart s e)"
  unfolding selectActiveCart_def addTotalPrice_def
  by (simp add: find_map_pres)

lemma selectActiveCart_frame [simp]:
  "selectActiveCart (addStock s r a) e = selectActiveCart s e"
  "selectActiveCart (insertCartDetail s c r a p) e = selectActiveCart s e"
  "selectActiveCart (updateCartDetailAmount s i a) e = selectActiveCart s e"
  "selectActiveCart (updatePrice s r p) e = selectActiveCart s e"
  by (simp_all add: selectActiveCart_def addStock_def insertCartDetail_def
        updateCartDetailAmount_def updatePrice_def)

lemma selectRecord_updatePrice:
  "selectRecord (updatePrice s r p) rid =
     map_option (\<lambda>x. if IdRecord x = r then x\<lparr>Price := p\<rparr> else x) (selectRecord s rid)"
  unfolding selectRecord_def updatePrice_def
  by (simp add: find_map_pres)

lemma selectRecord_addStock:
  "selectRecord (addStock s r a) rid =
     map_option (\<lambda>x. if IdRecord x = r then x\<lparr>Stock := pgRound (of_int (Stock x) + a)\<rparr> else x)
       (selectRecord s rid)"
  unfolding selectRecord_def addStock_def
  by (simp add: find_map_pres)

lemma CartDetails_insertCartDetail:
  "CartDetails (insertCartDetail s c r a p) =
     CartDetails s @ [\<lparr>IdCartDetail = nextIdCartDetail s, CartId = c, RecordId = r,
                       Amount = pgRound a, LinePrice = p\<rparr>]"
  by (simp add: insertCartDetail_def)

lemma CartDetails_frame [simp]:
  "CartDetails (updatePrice s r p) = CartDetails s"
  by (simp add: updatePrice_def)

section \<open>The effect of addToCart and removeFromCart on the store\<close>

lemma validateRequest_Inr: "validateRequest req = Inr (rid, n) \<Longrightarrow> 0 < n \<and> rid \<noteq> 0"
  by (auto simp: validateRequest_def split: if_splits option.splits jsnum.splits)

lemma validateRequest_integral:
  "validateRequest req = Inr (rid, n) \<Longrightarrow> integralRequest req \<Longrightarrow> n = of_int \<lfloor>n\<rfloor>"
  by (auto simp: validateRequest_def integralRequest_def
      split: if_splits option.splits jsnum.splits)

lemma snd_addToCart:
  "snd (addToCart req s) =
     (case validateRequest req of
        Inl r \<Rightarrow> s
      | Inr (recordId, parsedAmount) \<Rightarrow>
          (case selectRecord s recordId of
             None \<Rightarrow> s
           | Some recordData \<Rightarrow>
               if of_int (Stock recordData) < parsedAmount then s
               else
                 (case selectActiveCart s (toLowerCase (reqEmail req)) of
                    None \<Rightarrow> s
                  | Some cart \<Rightarrow>
                      addTotalPrice
                        (addStock
                           (case selectCartDetail s (IdCart cart) recordId of
                              Some existingCartItem \<Rightarrow>
                                updateCartDetailAmount s (IdCartDetail existingCartItem)
                                  (of_int (Amount existingCartItem) + parsedAmount)
                            | None \<Rightarrow>
                                insertCartDetail s (IdCart cart) recordId parsedAmount
                                  (Price recordData))
                           recordId (- parsedAmount))
                        (IdCart cart) (of_int (Price recordData) * parsedAmount))))"
  by (simp add: addToCart_def Let_def split: sum.split option.split prod.split)

lemma addToCart_disj:
  "snd (addToCart req s) = s \<or>
   (\<exists>rid n rd cart.
      validateRequest req = Inr (rid, n) \<and> selectRecord s rid = Some rd \<and> n \<le> of_int (Stock rd) \<and>
      selectActiveCart s (toLowerCase (reqEmail req)) = Some cart \<and>
      selectCartDetail s (IdCart cart) rid = None \<and>
      snd (addToCart req s) =
         addTotalPrice (addStock (insertCartDetail s (IdCart cart) rid n (Price rd)) rid (- n))
           (IdCart cart) (of_int (Price rd) * n)) \<or>
   (\<exists>rid n rd cart line.
      validateRequest req = Inr (rid, n) \<and> selectRecord s rid = Some rd \<and> n \<le> of_int (Stock rd) \<and>
      selectActiveCart s (toLowerCase (reqEmail req)) = Some cart \<and>
      selectCartDetail s (IdCart cart) rid = Some line \<and>
      snd (addToCart req s) =
         addTotalPrice (addStock (updateCartDetailAmount s (IdCartDetail line) (of_int (Amount line) + n))
           rid (- n)) (IdCart cart) (of_int (Price rd) * n))"
  by (simp add: snd_addToCart split: sum.split option.split prod.split)

lemma addToCart_cases:
  obtains (unchanged) "snd (addToCart req s) = s"
  | (added) rid n rd cart where
      "validateRequest req = Inr (rid, n)" "selectRecord s rid = Some rd" "n \<le> of_int (Stock rd)"
      "selectActiveCart s (toLowerCase (reqEmail req)) = Some cart"
      "selectCartDetail s (IdCart cart) rid = None"
      "snd (addToCart req s) =
         addTotalPrice (addStock (insertCartDetail s (IdCart cart) rid n (Price rd)) rid (- n))
           (IdCart cart) (of_int (Price rd) * n)"
  | (merged) rid n rd cart line where
      "validateRequest req = Inr (rid, n)" "selectRecord s rid = Some rd" "n \<le> of_int (Stock rd)"
      "selectActiveCart s (toLowerCase (reqEmail req)) = Some cart"
      "selectCartDetail s (IdCart cart) rid = Some line"
      "snd (addToCart req s) =
         addTotalPrice (addStock (updateCartDetailAmount s (IdCartDetail line) (of_int (Amount line) + n))
           rid (- n)) (IdCart cart) (of_int (Price rd) * n)"
  using addToCart_disj [of req s] by blast

lemma addToCart_wf: "wf s \<Longrightarrow> wf (snd (addToCart req s))"
proof (cases req s rule: addToCart_cases)
  case unchanged
  then show "wf s \<Longrightarrow> ?thesis" by simp
next
  case (added rid n rd cart)
  assume "wf s"
  moreover from added have "IdCart cart \<in> IdCart ` set (Carts s)" "rid \<in> IdRecord ` set (Records s)"
    by (auto dest!: selectRecord_in selectActiveCart_in)
  ultimately show ?thesis using added by (simp add: wf_insertCartDetail)
next
  case (merged rid n rd cart line)
  assume "wf s"
  then show ?thesis using merged by simp
qed

lemma addToCart_conserves:
  assumes "wf s" and "stockOf s rid = Some st" and "integralRequest req"
  shows "\<exists>st'. stockOf (snd (addToCart req s)) rid = Some st' \<and>
           st' + reserved (snd (addToCart req s)) rid = st + reserved s rid \<and>
           (0 \<le> st \<longrightarrow> 0 \<le> st')"
proof (cases req s rule: addToCart_cases)
  case unchanged
  with assms show ?thesis by simp
next
  case (added r n rd cart)
  from added(1) assms(3) obtain k where k: "n = of_int k"
    using validateRequest_integral by blast
  from added have "stockOf s r = Some (Stock rd)" by (simp add: stockOf_def)
  with added assms k show ?thesis
    by (auto simp: stockOf_addStock)
next
  case (merged r n rd cart line)
  from merged(1) assms(3) obtain k where k: "n = of_int k"
    using validateRequest_integral by blast
  from merged have "line \<in> set (CartDetails s)" "RecordId line = r"
    by (auto dest!: selectCartDetail_in)
  moreover from merged have "stockOf s r = Some (Stock rd)" by (simp add: stockOf_def)
  ultimately show ?thesis using merged assms k
    by (auto simp: stockOf_addStock reserved_update)
qed

lemma createCart_frame [simp]:
  "Records (snd (createCart e b s)) = Records s"
  "CartDetails (snd (createCart e b s)) = CartDetails s"
  by (simp_all add: createCart_def Let_def split: option.split)

lemma stockOf_createCart [simp]: "stockOf (snd (createCart e b s)) rid = stockOf s rid"
  by (simp add: stockOf_def selectRecord_def)

lemma reserved_createCart [simp]: "reserved (snd (createCart e b s)) rid = reserved s rid"
  by (simp add: reserved_def)

lemma createCart_new:
  assumes "find (\<lambda>c. UserEmail c = toLowerCase (trim e) \<and> Enabled c) (Carts s) = None"
  shows "createCart e b s =
           (\<lparr>IdCart = nextIdCart s, UserEmail = toLowerCase (trim e), TotalPrice = 0, Enabled = b\<rparr>,
            s\<lparr>Carts := Carts s @ [\<lparr>IdCart = nextIdCart s, UserEmail = toLowerCase (trim e),
                                    TotalPrice = 0, Enabled = b\<rparr>],
              nextIdCart := nextIdCart s + 1\<rparr>)"
  using assms by (simp add: createCart_def Let_def)

lemma removalCart_frame [simp]:
  "Records (snd (removalCart req s)) = Records s"
  "CartDetails (snd (removalCart req s)) = CartDetails s"
  by (simp_all add: removalCart_def split: option.split)

lemma wf_removalCart: "wf s \<Longrightarrow> wf (snd (removalCart req s))"
  by (simp add: removalCart_def wf_createCart split: option.split)

lemma snd_removeFromCart:
  "snd (removeFromCart req s) =
     (case validateRequest req of
        Inl r \<Rightarrow> s
      | Inr (recordId, parsedAmount) \<Rightarrow>
          (case selectCartDetail (snd (removalCart req s)) (IdCart (fst (removalCart req s)))
                  recordId of
             None \<Rightarrow> s
           | Some cartDetail \<Rightarrow>
               if of_int (Amount cartDetail) < parsedAmount then s
               else
                 addTotalPrice
                   (addStock
                      (if of_int (Amount cartDetail) - parsedAmount = 0
                       then deleteCartDetail (snd (removalCart req s)) (IdCartDetail cartDetail)
                       else updateCartDetailAmount (snd (removalCart req s))
                              (IdCartDetail cartDetail) (of_int (Amount cartDetail) - parsedAmount))
                      recordId parsedAmount)
                   (IdCart (fst (removalCart req s))) (- (of_int (LinePrice cartDetail) * parsedAmount))))"
  by (simp add: removeFromCart_def removalCart_def Let_def
        split: sum.split option.split prod.split)

lemma removeFromCart_disj:
  "snd (removeFromCart req s) = s \<or>
   (\<exists>rid n line.
      validateRequest req = Inr (rid, n) \<and>
      selectCartDetail (snd (removalCart req s)) (IdCart (fst (removalCart req s))) rid = Some line \<and>
      n \<le> of_int (Amount line) \<and>
      snd (removeFromCart req s) =
        addTotalPrice
          (addStock
             (if of_int (Amount line) - n = 0
              then deleteCartDetail (snd (removalCart req s)) (IdCartDetail line)
              else updateCartDetailAmount (snd (removalCart req s)) (IdCartDetail line)
                     (of_int (Amount line) - n))
             rid n)
          (IdCart (fst (removalCart req s))) (- (of_int (LinePrice line) * n)))"
proof (cases "validateRequest req")
  case (Inl r)
  then show ?thesis by (simp add: snd_removeFromCart)
next
  case (Inr p)
  obtain rid n where p: "p = (rid, n)" by (cases p)
  show ?thesis
  proof (cases "selectCartDetail (snd (removalCart req s)) (IdCart (fst (removalCart req s))) rid")
    case None
    with Inr p show ?thesis by (simp add: snd_removeFromCart)
  next
    case (Some line)
    show ?thesis
    proof (cases "of_int (Amount line) < n")
      case True
      with Inr p Some show ?thesis by (simp add: snd_removeFromCart)
    next
      case False
      with Inr p Some have "snd (removeFromCart req s) =
        addTotalPrice
          (addStock
             (if of_int (Amount line) - n = 0
              then deleteCartDetail (snd (removalCart req s)) (IdCartDetail line)
              else updateCartDetailAmount (snd (removalCart req s)) (IdCartDetail line)
                     (of_int (Amount line) - n))
             rid n)
          (IdCart (fst (removalCart req s))) (- (of_int (LinePrice line) * n))"
        by (simp add: snd_removeFromCart)
      with Inr p Some False show ?thesis by force
    qed
  qed
qed

lemma removeFromCart_cases:
  obtains (unchanged) "snd (removeFromCart req s) = s"
  | (removed) rid n line where
      "validateRequest req = Inr (rid, n)"
      "selectCartDetail (snd (removalCart req s)) (IdCart (fst (removalCart req s))) rid = Some line"
      "n \<le> of_int (Amount line)"
      "snd (removeFromCart req s) =
        addTotalPrice
          (addStock
             (if of_int (Amount line) - n = 0
              then deleteCartDetail (snd (removalCart req s)) (IdCartDetail line)
              else updateCartDetailAmount (snd (removalCart req s)) (IdCartDetail line)
                     (of_int (Amount line) - n))
             rid n)
          (IdCart (fst (removalCart req s))) (- (of_int (LinePrice line) * n))"
  using removeFromCart_disj [of req s] by blast

lemma removeFromCart_wf:
  assumes "wf s"
  shows "wf (snd (removeFromCart req s))"
proof (cases req s rule: removeFromCart_cases)
  case unchanged
  with assms show ?thesis by simp
next
  case (removed rid n line)
  from assms have "wf (snd (removalCart req s))" by (rule wf_removalCart)
  then show ?thesis unfolding removed(4) by (simp add: wf_deleteCartDetail)
qed

lemma removeFromCart_conserves:
  assumes "wf s" and "stockOf s rid = Some st" and "integralRequest req"
  shows "\<exists>st'. stockOf (snd (removeFromCart req s)) rid = Some st' \<and>
           st' + reserved (snd (removeFromCart req s)) rid = st + reserved s rid \<and>
           (0 \<le> st \<longrightarrow> 0 \<le> st')"
proof (cases req s rule: removeFromCart_cases)
  case unchanged
  with assms show ?thesis by simp
next
  case (removed r n line)
  let ?s0 = "snd (removalCart req s)"
  from removed(1) assms(3) obtain k where k: "n = of_int k"
    using validateRequest_integral by blast
  from assms have wf0: "wf ?s0" by (simp add: wf_removalCart)
  from assms have st0: "stockOf ?s0 rid = Some st" and res0: "reserved ?s0 rid = reserved s rid"
    by (simp_all add: stockOf_def selectRecord_def reserved_def)
  from removed(2) have mem: "line \<in> set (CartDetails ?s0)" and rl: "RecordId line = r"
    by (auto dest!: selectCartDetail_in)
  from removed(1) have "0 < n" by (simp add: validateRequest_Inr)
  with wf0 st0 res0 mem rl k show ?thesis unfolding removed(4)
    by (auto simp: stockOf_addStock reserved_update reserved_delete)
qed

lemma addToCart_insufficient_stock:
  assumes "validateRequest req = Inr (rid, n)" and "selectRecord s rid = Some rd"
    and "of_int (Stock rd) < n"
  shows "addToCart req s = (InsufficientStock (Stock rd), s)"
  using assms by (simp add: addToCart_def)

lemma stock_conservation_integral:
  assumes "wf s" and "stockOf s recordId = Some S" and "0 \<le> S"
    and "list_all integralOp ops"
  shows "\<exists>st. stockOf (run ops s) recordId = Some st \<and>
           st + reserved (run ops s) recordId = S + reserved s recordId \<and> 0 \<le> st"
  using assms
proof (induction ops arbitrary: s S)
  case Nil
  then show ?case by simp
next
  case (Cons x xs)
  have "\<exists>st'. stockOf (applyOp x s) recordId = Some st' \<and>
          st' + reserved (applyOp x s) recordId = S + reserved s recordId \<and> 0 \<le> st'"
    using Cons.prems addToCart_conserves [of s recordId S] removeFromCart_conserves [of s recordId S]
    by (cases x) auto
  then obtain st' where st': "stockOf (applyOp x s) recordId = Some st'"
      "st' + reserved (applyOp x s) recordId = S + reserved s recordId" "0 \<le> st'"
    by blast
  have "wf (applyOp x s)"
    using Cons.prems(1) by (cases x) (simp_all add: addToCart_wf removeFromCart_wf)
  moreover from Cons.prems(4) have "list_all integralOp xs" by simp
  ultimately show ?case using Cons.IH [OF _ st'(1) st'(3)] st'(2) by auto
qed


section \<open>Rounding of numerals and fractions\<close>

lemma pgRound_numeral [simp]:
  "pgRound (numeral k) = numeral k" "pgRound 0 = 0" "pgRound 1 = 1"
  "pgRound (- numeral k) = - numeral k"
  using pgRound_of_int [of "numeral k"] pgRound_of_int [of 0] pgRound_of_int [of 1]
    pgRound_of_int [of "- numeral k"]
  by simp_all

lemma pgRound_fraction [simp]:
  "pgRound (numeral a / numeral b) = (2 * numeral a + numeral b) div (2 * numeral b)"
  "pgRound (- (numeral a / numeral b)) = - ((2 * numeral a + numeral b) div (2 * numeral b))"
proof -
  have h: "(numeral a / numeral b :: rat) + 1 / 2 =
          of_int (2 * numeral a + numeral b) / of_int (2 * numeral b)"
    by (simp add: field_simps)
  have p: "(0::rat) \<le> numeral a / numeral b" by simp
  have n: "\<not> (0::rat) \<le> - (numeral a / numeral b)" by simp
  show "pgRound (numeral a / numeral b) = (2 * numeral a + numeral b) div (2 * numeral b)"
    unfolding pgRound_def using p by (simp only: h floor_divide_of_int_eq if_True)
  show "pgRound (- (numeral a / numeral b)) = - ((2 * numeral a + numeral b) div (2 * numeral b))"
    unfolding pgRound_def using n by (simp only: h floor_divide_of_int_eq if_False minus_minus)
qed

section \<open>Evaluation on the example stores\<close>

lemmas eval_defs =
  shopA_def shopAB_def shopRepriced_def shopTwoDisabled_def emptyStore_def userRequest_def
  addToCart_def removeFromCart_def validateRequest_def createCart_def
  toLowerCase_def lowerChar_def sqlTrim_def trim_def isWhiteSpace_def
  selectRecord_def selectActiveCart_def selectCartDetail_def updateCartDetailAmount_def
  insertCartDetail_def deleteCartDetail_def addStock_def addTotalPrice_def
  getActiveCartByEmail_def getCartDetailsByCartId_def createOrder_def createOrderDetail_def
  removeAllDetailsFromCart_def updateCartTotalPrice_def createOrderFromCartArriving_def
  createOrderFromCart_def setStock_def elementZero_def updateStock_def saveEnabled_def
  disableCart_def enableCart_def activeCarts_def createUser_def
  updatePrice_def noFaults_def Let_def

lemma wf_shopA: "wf shopA"
  by (simp add: wf_def shopA_def)

lemma wf_shopAB: "wf shopAB"
  by (simp add: wf_def shopAB_def)

section \<open>Stock conservation\<close>

text \<open>
  For requests whose amounts are whole numbers the stock is conserved
  (\<open>stock_conservation_integral\<close> above): the item's stock plus the amounts of the cart
  lines that hold it stays what it was, and the stock stays non-negative. An addition
  beyond the stock is answered with \<open>InsufficientStock\<close> on the unchanged store
  (\<open>addToCart_insufficient_stock\<close>).
\<close>

lemma run_wf: "wf s \<Longrightarrow> wf (run ops s)"
proof (induction ops arbitrary: s)
  case Nil
  then show ?case by simp
next
  case (Cons x xs)
  then show ?case by (cases x) (simp_all add: addToCart_wf removeFromCart_wf)
qed

text \<open>
  The scenario of the specification: item 1 at stock 10 and 3.00; adding 4, adding 1
  and removing 2 leaves stock 7, one line of amount 3 and the total 9.00.
\<close>

lemma scenario:
  "run [AddItem (userRequest ''u@x'' 1 4), AddItem (userRequest ''u@x'' 1 1),
        RemoveItem (userRequest ''u@x'' 1 2)] shopA =
   shopA\<lparr>Records := [\<lparr>IdRecord = 1, Price = 300, Stock = 7\<rparr>],
          Carts := [\<lparr>IdCart = 1, UserEmail = ''u@x'', TotalPrice = 900, Enabled = True\<rparr>],
          CartDetails := [\<lparr>IdCartDetail = 1, CartId = 1, RecordId = 1, Amount = 3, LinePrice = 300\<rparr>],
          nextIdCartDetail := 2\<rparr>"
  by (simp add: eval_defs)

text \<open>
  Claim C1 says that after every successful \<^verbatim>\<open>addToCart\<close> or \<^verbatim>\<open>removeFromCart\<close> the
  stock of an item plus the amounts of the cart lines that hold it is the stock \<open>S\<close> at
  the start. The controllers accept every amount with \<^verbatim>\<open>Number(amount) > 0\<close>, whole or
  not, although the routes document \<^verbatim>\<open>amount\<close> as an integer. The statements then
  write \<^verbatim>\<open>"Stock" - :amount\<close> and \<^verbatim>\<open>:amount\<close> into two \<^verbatim>\<open>INTEGER\<close> columns, each
  rounded by itself. On the store with item 1 at stock 10 and nothing reserved, the
  request for 1.5 of item 1 is answered with success: the stock becomes 9 (10 - 1.5 =
  8.5, rounded) and the new line holds 2 (1.5, rounded), so stock plus reservations is
  11, not 10.
\<close>

theorem addToCart_fractional_amount_breaks_conservation:
  "addToCart (userRequest ''u@x'' 1 (3 / 2)) shopA =
     (ItemAdded 9 1,
      shopA\<lparr>Records := [\<lparr>IdRecord = 1, Price = 300, Stock = 9\<rparr>],
             Carts := [\<lparr>IdCart = 1, UserEmail = ''u@x'', TotalPrice = 450, Enabled = True\<rparr>],
             CartDetails := [\<lparr>IdCartDetail = 1, CartId = 1, RecordId = 1, Amount = 2,
                              LinePrice = 300\<rparr>],
             nextIdCartDetail := 2\<rparr>) \<and>
   stockOf shopA 1 = Some 10 \<and> reserved shopA 1 = 0 \<and>
   stockOf (snd (addToCart (userRequest ''u@x'' 1 (3 / 2)) shopA)) 1 = Some 9 \<and>
   reserved (snd (addToCart (userRequest ''u@x'' 1 (3 / 2)) shopA)) 1 = 2"
  by (simp add: eval_defs stockOf_def reserved_def)

section \<open>Adding the same item twice\<close>

text \<open>
  Claim C9 says that adding the same item twice leaves one cart line whose amount is
  the sum of the requested amounts, with the price of the first addition. The second
  addition does update the line of the first instead of inserting another, and it
  leaves the price of the line alone. The amount is the sum only for whole amounts
  (\<open>addToCart_twice_merges_integral\<close> below); the controller accepts other amounts as
  well, although the routes document \<^verbatim>\<open>amount\<close> as an integer. After the request for
  1.5 of item 1 shown above, whose line holds 2, a second request for 1.5 is answered
  with success and the line holds 4 (2 + 1.5 = 3.5, rounded), not 3; the stock went
  from 10 to 8 and the total is 9.00, the price of 3.
\<close>

theorem addToCart_twice_fractional_amounts:
  "addToCart (userRequest ''u@x'' 1 (3 / 2)) (snd (addToCart (userRequest ''u@x'' 1 (3 / 2)) shopA)) =
     (ItemAdded 8 1,
      shopA\<lparr>Records := [\<lparr>IdRecord = 1, Price = 300, Stock = 8\<rparr>],
             Carts := [\<lparr>IdCart = 1, UserEmail = ''u@x'', TotalPrice = 900, Enabled = True\<rparr>],
             CartDetails := [\<lparr>IdCartDetail = 1, CartId = 1, RecordId = 1, Amount = 4,
                              LinePrice = 300\<rparr>],
             nextIdCartDetail := 2\<rparr>)"
  by (simp add: eval_defs)

section \<open>The price charged when a line is merged\<close>

lemma addToCart_merged_total:
  assumes "validateRequest req = Inr (rid, n)" and "selectRecord s rid = Some rd"
    and "n \<le> of_int (Stock rd)"
    and "selectActiveCart s (toLowerCase (reqEmail req)) = Some cart"
    and "selectCartDetail s (IdCart cart) rid = Some line"
  shows "selectActiveCart (snd (addToCart req s)) (toLowerCase (reqEmail req)) =
           Some (cart\<lparr>TotalPrice := pgRound (of_int (TotalPrice cart) + of_int (Price rd) * n)\<rparr>)"
  using assms by (simp add: snd_addToCart selectActiveCart_addTotalPrice)

text \<open>
  Claim C2 says that adding to an existing line raises the cart total by the line's
  snapshot price times the amount. \<^verbatim>\<open>addToCart\<close> computes \<^verbatim>\<open>priceToAdd\<close> from
  \<^verbatim>\<open>recordData.Price\<close>, the catalog price, on both branches
  (\<open>addToCart_merged_total\<close>). In the store below the line
  holds two of item 1 at the snapshot 10.00 and the catalog price is now 15.00: adding
  one more raises the total from 20.00 to 35.00, not to 30.00, while the line keeps its
  snapshot. \<^verbatim>\<open>removeFromCart\<close> deducts by the snapshot, so removing all three
  afterwards leaves an empty cart with a total of 5.00.
\<close>

theorem addToCart_merge_charges_catalog_price:
  "addToCart (userRequest ''u@x'' 1 1) shopRepriced =
     (ItemAdded 7 1,
      shopRepriced\<lparr>Records := [\<lparr>IdRecord = 1, Price = 1500, Stock = 7\<rparr>],
                   Carts := [\<lparr>IdCart = 1, UserEmail = ''u@x'', TotalPrice = 3500, Enabled = True\<rparr>],
                   CartDetails := [\<lparr>IdCartDetail = 1, CartId = 1, RecordId = 1, Amount = 3,
                                    LinePrice = 1000\<rparr>]\<rparr>) \<and>
   removeFromCart (userRequest ''u@x'' 1 3) (snd (addToCart (userRequest ''u@x'' 1 1) shopRepriced)) =
     (ItemRemoved 10 0,
      shopRepriced\<lparr>Records := [\<lparr>IdRecord = 1, Price = 1500, Stock = 10\<rparr>],
                   Carts := [\<lparr>IdCart = 1, UserEmail = ''u@x'', TotalPrice = 500, Enabled = True\<rparr>],
                   CartDetails := []\<rparr>)"
  by (simp add: eval_defs)

section \<open>Adding the same item twice, whole amounts\<close>

text \<open>
  Take a well-formed store, an active cart without a line for an item, and two valid,
  authorised requests of the cart's user for that item, with whole amounts the stock
  covers; let the catalog price of the item change to any value between the two. After
  both additions the cart has exactly one line for the item: its amount is the sum of
  the two amounts and its price is the catalog price at the first addition.
\<close>

lemma addToCart_twice_merges_integral:
  assumes "wf s"
    and v1: "validateRequest req1 = Inr (rid, of_int n1)"
    and v2: "validateRequest req2 = Inr (rid, of_int n2)"
    and e: "toLowerCase (reqEmail req2) = toLowerCase (reqEmail req1)"
    and cart: "selectActiveCart s (toLowerCase (reqEmail req1)) = Some cart"
    and none: "filter (\<lambda>d. CartId d = IdCart cart \<and> RecordId d = rid) (CartDetails s) = []"
    and rd: "selectRecord s rid = Some rd"
    and stock: "n1 + n2 \<le> Stock rd"
  shows "filter (\<lambda>d. CartId d = IdCart cart \<and> RecordId d = rid)
           (CartDetails (snd (addToCart req2 (updatePrice (snd (addToCart req1 s)) rid p')))) =
         [\<lparr>IdCartDetail = nextIdCartDetail s, CartId = IdCart cart, RecordId = rid,
           Amount = n1 + n2, LinePrice = Price rd\<rparr>]"
proof -
  let ?cid = "IdCart cart"
  let ?line = "\<lparr>IdCartDetail = nextIdCartDetail s, CartId = ?cid, RecordId = rid,
                Amount = n1, LinePrice = Price rd\<rparr>"
  let ?P = "\<lambda>d. CartId d = ?cid \<and> RecordId d = rid"
  from validateRequest_Inr [OF v1] validateRequest_Inr [OF v2]
  have pos: "0 < n1" "0 < n2" by simp_all
  from none have nl: "selectCartDetail s ?cid rid = None"
    unfolding selectCartDetail_def by (rule filter_empty_find)
  let ?s1 = "addTotalPrice (addStock (insertCartDetail s ?cid rid (of_int n1) (Price rd)) rid
               (- of_int n1)) ?cid (of_int (Price rd) * of_int n1)"
  from v1 rd stock pos cart nl have s1: "snd (addToCart req1 s) = ?s1"
    by (simp add: snd_addToCart)
  let ?s2 = "updatePrice ?s1 rid p'"
  have cd2: "CartDetails ?s2 = CartDetails s @ [?line]"
    by (simp add: insertCartDetail_def addStock_def)
  from rd have rd2: "selectRecord ?s2 rid = Some (rd\<lparr>Stock := Stock rd - n1, Price := p'\<rparr>)"
    by (auto simp: selectRecord_updatePrice selectRecord_addStock dest: selectRecord_in)
  from cart have cart2: "selectActiveCart ?s2 (toLowerCase (reqEmail req2)) =
      Some (cart\<lparr>TotalPrice := TotalPrice cart + Price rd * n1\<rparr>)"
    by (simp add: e selectActiveCart_addTotalPrice)
  from nl have "find ?P (CartDetails s) = None" by (simp add: selectCartDetail_def)
  then have "find ?P (CartDetails s @ [?line]) = Some ?line"
    by (simp add: find_append_None)
  then have line2: "selectCartDetail ?s2 ?cid rid = Some ?line"
    unfolding selectCartDetail_def cd2 .
  from v2 rd2 cart2 line2 stock
  have "CartDetails (snd (addToCart req2 ?s2)) =
          CartDetails (updateCartDetailAmount ?s2 (nextIdCartDetail s) (of_int n1 + of_int n2))"
    by (simp add: snd_addToCart)
  also have "\<dots> = map (\<lambda>d. if IdCartDetail d = nextIdCartDetail s then d\<lparr>Amount := n1 + n2\<rparr> else d)
                     (CartDetails s) @ [?line\<lparr>Amount := n1 + n2\<rparr>]"
    by (simp add: updateCartDetailAmount_def CartDetails_insertCartDetail)
  also have "map (\<lambda>d. if IdCartDetail d = nextIdCartDetail s then d\<lparr>Amount := n1 + n2\<rparr> else d)
                     (CartDetails s) = CartDetails s"
  proof (rule map_upd_absent)
    from \<open>wf s\<close> show "nextIdCartDetail s \<notin> IdCartDetail ` set (CartDetails s)"
      by (auto simp: wf_def)
  qed
  finally show ?thesis using none s1 by simp
qed


section \<open>Removal\<close>

lemma no_line_for_fresh_cart:
  assumes "wf s"
  shows "find (\<lambda>d. CartId d = nextIdCart s \<and> RecordId d = rid) (CartDetails s) = None"
proof -
  have "CartId d \<noteq> nextIdCart s" if "d \<in> set (CartDetails s)" for d
  proof -
    from assms that obtain c where "c \<in> set (Carts s)" "CartId d = IdCart c"
      by (auto simp: wf_def)
    with assms show ?thesis by (auto simp: wf_def)
  qed
  then show ?thesis by (simp add: find_None_iff2)
qed



text \<open>
  Claim C8. For a valid, authorised removal request whose cart line exists: asking for
  more than the line holds, by a whole amount or not, is answered with \<open>InvalidRemoval\<close> carrying the line's
  amount, on the unchanged store (stock, line and total included); asking for exactly
  the line's amount succeeds, reports 0 remaining and the stock raised by the amount,
  and deletes the line.
\<close>

theorem removeFromCart_over_removal_rejected:
  assumes "wf s" and "validateRequest req = Inr (rid, n)"
    and "selectActiveCart s (toLowerCase (reqEmail req)) = Some cart"
    and "selectCartDetail s (IdCart cart) rid = Some line"
  shows "(of_int (Amount line) < n \<longrightarrow>
            removeFromCart req s = (InvalidRemoval (Amount line), s)) \<and>
         (n = of_int (Amount line) \<longrightarrow>
            (\<exists>st. stockOf s rid = Some st \<and>
                  fst (removeFromCart req s) = ItemRemoved (st + Amount line) 0) \<and>
            CartDetails (snd (removeFromCart req s)) =
              filter (\<lambda>d. IdCartDetail d \<noteq> IdCartDetail line) (CartDetails s) \<and>
            line \<notin> set (CartDetails (snd (removeFromCart req s))))"
proof (intro conjI impI)
  assume "of_int (Amount line) < n"
  with assms show "removeFromCart req s = (InvalidRemoval (Amount line), s)"
    by (simp add: removeFromCart_def)
next
  assume n: "n = of_int (Amount line)"
  from assms(4) have mem: "line \<in> set (CartDetails s)" and rl: "RecordId line = rid"
    by (auto dest!: selectCartDetail_in)
  with assms(1) obtain r where r: "r \<in> set (Records s)" "IdRecord r = rid"
    by (auto simp: wf_def)
  then obtain rd where rd: "selectRecord s rid = Some rd"
    by (cases "selectRecord s rid") (auto simp: selectRecord_def dest: find_NoneD)
  then have st: "stockOf s rid = Some (Stock rd)" by (simp add: stockOf_def)
  let ?s3 = "addTotalPrice (addStock (deleteCartDetail s (IdCartDetail line)) rid n)
               (IdCart cart) (- (of_int (LinePrice line) * n))"
  have "stockOf ?s3 rid = Some (Stock rd + Amount line)"
    using st n by (simp add: stockOf_addStock)
  then obtain u where u: "selectRecord ?s3 rid = Some u" "Stock u = Stock rd + Amount line"
    by (auto simp: stockOf_def)
  from assms(2,3,4) n u
  have res: "removeFromCart req s = (ItemRemoved (Stock rd + Amount line) 0, ?s3)"
    by (simp add: removeFromCart_def Let_def)
  with st show "\<exists>st. stockOf s rid = Some st \<and>
                  fst (removeFromCart req s) = ItemRemoved (st + Amount line) 0"
    by simp
  from res show cd: "CartDetails (snd (removeFromCart req s)) =
      filter (\<lambda>d. IdCartDetail d \<noteq> IdCartDetail line) (CartDetails s)"
    by (simp add: deleteCartDetail_def)
  then show "line \<notin> set (CartDetails (snd (removeFromCart req s)))" by simp
qed

theorem removeFromCart_over_removal_rejected_witness:
  "wf shopAB \<and>
   validateRequest (userRequest ''u@x'' 1 5) = Inr (1, 5) \<and>
   validateRequest (userRequest ''u@x'' 1 2) = Inr (1, 2) \<and>
   selectActiveCart shopAB (toLowerCase ''u@x'') =
     Some \<lparr>IdCart = 1, UserEmail = ''u@x'', TotalPrice = 2500, Enabled = True\<rparr> \<and>
   selectCartDetail shopAB 1 1 =
     Some \<lparr>IdCartDetail = 1, CartId = 1, RecordId = 1, Amount = 2, LinePrice = 1000\<rparr> \<and>
   removeFromCart (userRequest ''u@x'' 1 5) shopAB = (InvalidRemoval 2, shopAB) \<and>
   fst (removeFromCart (userRequest ''u@x'' 1 2) shopAB) = ItemRemoved 10 0 \<and>
   CartDetails (snd (removeFromCart (userRequest ''u@x'' 1 2) shopAB)) =
     [\<lparr>IdCartDetail = 2, CartId = 1, RecordId = 2, Amount = 1, LinePrice = 500\<rparr>]"
proof -
  let ?c = "\<lparr>IdCart = 1, UserEmail = ''u@x'', TotalPrice = 2500, Enabled = True\<rparr>"
  let ?l = "\<lparr>IdCartDetail = 1, CartId = 1, RecordId = 1, Amount = 2, LinePrice = 1000\<rparr>"
  have h1: "wf shopAB" by (rule wf_shopAB)
  have h5: "validateRequest (userRequest ''u@x'' 1 5) = Inr (1, 5)" by (simp add: eval_defs)
  have h2: "validateRequest (userRequest ''u@x'' 1 2) = Inr (1, 2)" by (simp add: eval_defs)
  have e: "reqEmail (userRequest ''u@x'' 1 5) = ''u@x''" "reqEmail (userRequest ''u@x'' 1 2) = ''u@x''"
    by (simp_all add: userRequest_def)
  have h3: "selectActiveCart shopAB (toLowerCase ''u@x'') = Some ?c" by (simp add: eval_defs)
  have h4: "selectCartDetail shopAB (IdCart ?c) 1 = Some ?l" by (simp add: eval_defs)
  have st: "stockOf shopAB 1 = Some 8" by (simp add: stockOf_def eval_defs)
  have cd: "CartDetails shopAB = [?l, \<lparr>IdCartDetail = 2, CartId = 1, RecordId = 2, Amount = 1, LinePrice = 500\<rparr>]"
    by (simp add: shopAB_def)
  from removeFromCart_over_removal_rejected [of shopAB "userRequest ''u@x'' 1 5" 1 5 ?c ?l]
    removeFromCart_over_removal_rejected [of shopAB "userRequest ''u@x'' 1 2" 1 2 ?c ?l]
    h1 h2 h3 h4 h5 e st cd
  show ?thesis by simp
qed


section \<open>Order conversion under a failing statement\<close>

text \<open>
  Claim C3 says that order conversion is atomic. \<^verbatim>\<open>createOrderFromCart\<close> runs no
  transaction. On the cart of two lines and total 25.00: when the insert of the second
  order line fails, the answer is 500 and the store keeps the order and its first line,
  with the cart untouched; when the deletion of the cart lines fails, the answer is 500
  and the store keeps the order, both order lines and the total reset to 0, with the
  cart lines still there.
\<close>

theorem createOrderFromCart_partial_writes_survive:
  "createOrderFromCart (\<lambda>st. st = InsertOrderDetail 2) ''u@x'' shopAB =
     (ServerError ''Failed to create order'',
      shopAB\<lparr>Orders := [\<lparr>IdOrder = 1, OrderUserEmail = ''u@x'', PaymentMethod = ''Credit Card'',
                          Total = 2500, OrderCartId = 1\<rparr>],
             OrderDetails := [\<lparr>IdOrderDetail = 1, OrderId = 1, ODRecordId = 1, ODAmount = 2,
                                ODPrice = 1000\<rparr>],
             nextIdOrder := 2, nextIdOrderDetail := 2\<rparr>) \<and>
   createOrderFromCart (\<lambda>st. st = DeleteCartDetails) ''u@x'' shopAB =
     (ServerError ''Failed to create order'',
      shopAB\<lparr>Carts := [\<lparr>IdCart = 1, UserEmail = ''u@x'', TotalPrice = 0, Enabled = True\<rparr>],
             Orders := [\<lparr>IdOrder = 1, OrderUserEmail = ''u@x'', PaymentMethod = ''Credit Card'',
                          Total = 2500, OrderCartId = 1\<rparr>],
             OrderDetails := [\<lparr>IdOrderDetail = 1, OrderId = 1, ODRecordId = 1, ODAmount = 2,
                                ODPrice = 1000\<rparr>,
                              \<lparr>IdOrderDetail = 2, OrderId = 1, ODRecordId = 2, ODAmount = 1,
                                ODPrice = 500\<rparr>],
             nextIdOrder := 2, nextIdOrderDetail := 3\<rparr>)"
  by (simp add: eval_defs)


section \<open>A failing read of the cart lines\<close>

text \<open>
  Claim C10. When the read of the cart lines fails, \<^verbatim>\<open>getCartDetailsByCartId\<close> returns
  the empty list. For a user whose active cart is found: \<^verbatim>\<open>createOrderFromCart\<close> on a
  cart with a positive total then answers \<^verbatim>\<open>Cart is empty\<close> and writes nothing, so no
  order is created; and \<^verbatim>\<open>disableCart\<close>, when its save succeeds, returns the cart
  identifier with the cart disabled, no stock changed and every cart line left in place.
\<close>

theorem getCartDetailsByCartId_swallows_errors:
  assumes "fails SelectCartDetails"
    and "getActiveCartByEmail fails email s = Inr (Some cart)"
  shows "getCartDetailsByCartId fails (IdCart cart) s = [] \<and>
         (0 < TotalPrice cart \<longrightarrow>
            createOrderFromCart fails email s = (BadRequest ''Cart is empty'', s)) \<and>
         (\<not> fails SaveCart \<longrightarrow>
            disableCart fails email s = (Inr (IdCart cart), saveEnabled s (IdCart cart) False) \<and>
            Records (snd (disableCart fails email s)) = Records s \<and>
            CartDetails (snd (disableCart fails email s)) = CartDetails s)"
proof -
  from assms(2) have "email \<noteq> []"
    by (auto simp: getActiveCartByEmail_def split: if_splits)
  with assms show ?thesis
    by (simp add: getCartDetailsByCartId_def createOrderFromCart_def
          createOrderFromCartArriving_def disableCart_def saveEnabled_def)
qed

theorem getCartDetailsByCartId_swallows_errors_witness:
  "(\<lambda>st. st = SelectCartDetails) SelectCartDetails \<and>
   getActiveCartByEmail (\<lambda>st. st = SelectCartDetails) ''u@x'' shopAB =
     Inr (Some \<lparr>IdCart = 1, UserEmail = ''u@x'', TotalPrice = 2500, Enabled = True\<rparr>) \<and>
   filter (\<lambda>d. CartId d = 1) (CartDetails shopAB) \<noteq> [] \<and>
   getCartDetailsByCartId (\<lambda>st. st = SelectCartDetails) 1 shopAB = [] \<and>
   createOrderFromCart (\<lambda>st. st = SelectCartDetails) ''u@x'' shopAB =
     (BadRequest ''Cart is empty'', shopAB) \<and>
   disableCart (\<lambda>st. st = SelectCartDetails) ''u@x'' shopAB =
     (Inr 1, shopAB\<lparr>Carts := [\<lparr>IdCart = 1, UserEmail = ''u@x'', TotalPrice = 2500,
                                 Enabled = False\<rparr>]\<rparr>)"
proof -
  let ?f = "\<lambda>st. st = SelectCartDetails"
  let ?c = "\<lparr>IdCart = 1, UserEmail = ''u@x'', TotalPrice = 2500, Enabled = True\<rparr>"
  have h1: "?f SelectCartDetails" by simp
  have h2: "getActiveCartByEmail ?f ''u@x'' shopAB = Inr (Some ?c)"
    by (simp add: eval_defs)
  have h3: "filter (\<lambda>d. CartId d = 1) (CartDetails shopAB) \<noteq> []"
    by (simp add: shopAB_def)
  have h4: "saveEnabled shopAB 1 False =
      shopAB\<lparr>Carts := [\<lparr>IdCart = 1, UserEmail = ''u@x'', TotalPrice = 2500, Enabled = False\<rparr>]\<rparr>"
    by (simp add: saveEnabled_def shopAB_def)
  from getCartDetailsByCartId_swallows_errors [OF h1 h2] h1 h2 h3 h4 show ?thesis by simp
qed


section \<open>Order conversion\<close>

lemma addTotalPrice_orders [simp]:
  "Users (addTotalPrice s c q) = Users s"
  "Orders (addTotalPrice s c q) = Orders s"
  "OrderDetails (addTotalPrice s c q) = OrderDetails s"
  "nextIdOrder (addTotalPrice s c q) = nextIdOrder s"
  "nextIdOrderDetail (addTotalPrice s c q) = nextIdOrderDetail s"
  by (simp_all add: addTotalPrice_def)

lemma createOrderDetail_Inr:
  assumes "createOrderDetail fails oid d t = Inr t1"
  shows "t1 = t\<lparr>OrderDetails := OrderDetails t @
                  [\<lparr>IdOrderDetail = nextIdOrderDetail t, OrderId = oid, ODRecordId = RecordId d,
                    ODAmount = Amount d, ODPrice = LinePrice d\<rparr>],
                nextIdOrderDetail := nextIdOrderDetail t + 1\<rparr>"
  using assms by (simp add: createOrderDetail_def split: if_splits)

lemma createOrderDetails_True:
  assumes "createOrderDetails fails oid ds t = (True, t')"
  shows "\<exists>new. t' = t\<lparr>OrderDetails := OrderDetails t @ new,
                       nextIdOrderDetail := nextIdOrderDetail t + int (length ds)\<rparr> \<and>
           map (\<lambda>x. (OrderId x, ODRecordId x, ODAmount x, ODPrice x)) new =
             map (\<lambda>d. (oid, RecordId d, Amount d, LinePrice d)) ds"
  using assms
proof (induction ds arbitrary: t)
  case Nil
  then show ?case by simp
next
  case (Cons d ds)
  show ?case
  proof (cases "createOrderDetail fails oid d t")
    case (Inl e)
    with Cons.prems show ?thesis by simp
  next
    case (Inr t1)
    let ?row = "\<lparr>IdOrderDetail = nextIdOrderDetail t, OrderId = oid, ODRecordId = RecordId d,
                 ODAmount = Amount d, ODPrice = LinePrice d\<rparr>"
    from Inr have t1: "t1 = t\<lparr>OrderDetails := OrderDetails t @ [?row],
                               nextIdOrderDetail := nextIdOrderDetail t + 1\<rparr>"
      by (rule createOrderDetail_Inr)
    from Cons.prems Inr have "createOrderDetails fails oid ds t1 = (True, t')" by simp
    from Cons.IH [OF this] obtain new where
      new: "t' = t1\<lparr>OrderDetails := OrderDetails t1 @ new,
                     nextIdOrderDetail := nextIdOrderDetail t1 + int (length ds)\<rparr>"
        "map (\<lambda>x. (OrderId x, ODRecordId x, ODAmount x, ODPrice x)) new =
           map (\<lambda>d. (oid, RecordId d, Amount d, LinePrice d)) ds"
      by blast
    show ?thesis
      by (rule exI [of _ "?row # new"]) (simp add: new t1)
  qed
qed

lemma reset_total:
  assumes "distinct (map IdCart cs)" and "cart \<in> set cs"
  shows "map (\<lambda>c. if IdCart c = IdCart cart then c\<lparr>TotalPrice := TotalPrice c - TotalPrice cart\<rparr> else c) cs =
         map (\<lambda>c. if IdCart c = IdCart cart then cart\<lparr>TotalPrice := 0\<rparr> else c) cs"
proof (rule map_cong [OF refl])
  fix c assume "c \<in> set cs"
  with assms have "IdCart c = IdCart cart \<Longrightarrow> c = cart"
    by (meson distinct_map inj_onD)
  then show "(if IdCart c = IdCart cart then c\<lparr>TotalPrice := TotalPrice c - TotalPrice cart\<rparr> else c) =
             (if IdCart c = IdCart cart then cart\<lparr>TotalPrice := 0\<rparr> else c)"
    by auto
qed

lemma Carts_reset:
  assumes "distinct (map IdCart (Carts t))" and "cart \<in> set (Carts t)"
  shows "Carts (addTotalPrice t (IdCart cart) (- of_int (TotalPrice cart))) =
         map (\<lambda>c. if IdCart c = IdCart cart then cart\<lparr>TotalPrice := 0\<rparr> else c) (Carts t)"
proof -
  have "Carts (addTotalPrice t (IdCart cart) (- of_int (TotalPrice cart))) =
        map (\<lambda>c. if IdCart c = IdCart cart then c\<lparr>TotalPrice := TotalPrice c - TotalPrice cart\<rparr> else c)
          (Carts t)"
    by (simp add: addTotalPrice_def)
  also have "\<dots> = map (\<lambda>c. if IdCart c = IdCart cart then cart\<lparr>TotalPrice := 0\<rparr> else c) (Carts t)"
    by (rule reset_total [OF assms])
  finally show ?thesis .
qed

text \<open>
  Claim C4. Take a well-formed store, any statements failing, and the order line inserts
  arriving in any order, and let \<^verbatim>\<open>createOrderFromCart\<close> answer 201 with an order
  identifier. Then the user had an active cart with a positive total and at least one
  line; exactly one order was appended, under that identifier, with the cart's total;
  the order lines appended are, as a multiset, the cart's lines, each with the order's
  identifier and the record, amount and price of its cart line; the cart has no line
  left and the other carts' lines are untouched; the cart's row is still there and
  enabled, with total 0; and the records, hence every stock, are unchanged. (The answer
  is 201 whenever the email is registered as spelled, every line has an amount and a
  price the \<^verbatim>\<open>OrderDetail\<close> validators accept and no statement fails:
  \<open>createOrderFromCart_succeeds\<close> below.)
\<close>

theorem createOrderFromCart_converts_cart:
  assumes wf: "wf s"
    and perm: "\<forall>ds. mset (arrival ds) = mset ds"
    and ok: "createOrderFromCartArriving arrival fails email s = (OrderCreated oid, s')"
  shows "\<exists>cart new.
           getActiveCartByEmail fails email s = Inr (Some cart) \<and>
           cart \<in> set (Carts s) \<and> Enabled cart \<and> 0 < TotalPrice cart \<and>
           filter (\<lambda>d. CartId d = IdCart cart) (CartDetails s) \<noteq> [] \<and>
           Orders s' = Orders s @
             [\<lparr>IdOrder = oid, OrderUserEmail = email, PaymentMethod = ''Credit Card'',
               Total = TotalPrice cart, OrderCartId = IdCart cart\<rparr>] \<and>
           OrderDetails s' = OrderDetails s @ new \<and>
           mset (map (\<lambda>x. (OrderId x, ODRecordId x, ODAmount x, ODPrice x)) new) =
             mset (map (\<lambda>d. (oid, RecordId d, Amount d, LinePrice d))
                     (filter (\<lambda>d. CartId d = IdCart cart) (CartDetails s))) \<and>
           CartDetails s' = filter (\<lambda>d. CartId d \<noteq> IdCart cart) (CartDetails s) \<and>
           filter (\<lambda>d. CartId d = IdCart cart) (CartDetails s') = [] \<and>
           Carts s' = map (\<lambda>c. if IdCart c = IdCart cart then cart\<lparr>TotalPrice := 0\<rparr> else c) (Carts s) \<and>
           Records s' = Records s"
proof -
  note d = createOrderFromCartArriving_def
  have ne: "email \<noteq> []"
  proof
    assume "email = []"
    with ok show False by (simp add: d)
  qed
  obtain cart where cart: "getActiveCartByEmail fails email s = Inr (Some cart)"
  proof (cases "getActiveCartByEmail fails email s")
    case (Inl e)
    with ok ne show ?thesis by (simp add: d)
  next
    case (Inr oc)
    show ?thesis
    proof (cases oc)
      case None
      with ok ne Inr show ?thesis by (simp add: d)
    next
      case (Some c)
      with Inr that show ?thesis by simp
    qed
  qed
  from cart have f: "find (\<lambda>c. UserEmail c = toLowerCase (trim email) \<and> Enabled c) (Carts s) = Some cart"
    by (auto simp: getActiveCartByEmail_def split: if_splits)
  then have mem: "cart \<in> set (Carts s)" and en: "Enabled cart"
    by (auto dest: find_SomeD)
  have pos: "0 < TotalPrice cart"
  proof (rule ccontr)
    assume "\<not> 0 < TotalPrice cart"
    with ok ne cart show False by (simp add: d)
  qed
  let ?lines = "getCartDetailsByCartId fails (IdCart cart) s"
  have lines: "?lines \<noteq> []"
  proof
    assume "?lines = []"
    with ok ne cart pos show False by (simp add: d)
  qed
  then have lines_eq: "?lines = filter (\<lambda>d. CartId d = IdCart cart) (CartDetails s)"
    by (auto simp: getCartDetailsByCartId_def split: if_splits)
  obtain order s1 where
    o: "createOrder fails email ''Credit Card'' (TotalPrice cart) (IdCart cart) s = Inr (order, s1)"
  proof (cases "createOrder fails email ''Credit Card'' (TotalPrice cart) (IdCart cart) s")
    case (Inl e)
    with ok ne cart pos lines show ?thesis by (simp add: d)
  next
    case (Inr p)
    with that show ?thesis by (cases p) simp
  qed
  have order: "order = \<lparr>IdOrder = nextIdOrder s, OrderUserEmail = email,
                   PaymentMethod = ''Credit Card'', Total = TotalPrice cart, OrderCartId = IdCart cart\<rparr>"
    and s1: "s1 = s\<lparr>Orders := Orders s @ [order], nextIdOrder := nextIdOrder s + 1\<rparr>"
    using o by (auto simp: createOrder_def Let_def split: if_splits)
  obtain b s2 where ds: "createOrderDetails fails (IdOrder order) (arrival ?lines) s1 = (b, s2)"
    by (cases "createOrderDetails fails (IdOrder order) (arrival ?lines) s1")
  have b: "b"
  proof (rule ccontr)
    assume "\<not> b"
    with ok ne cart pos lines o ds show False by (simp add: d)
  qed
  obtain s3 where cl: "removeAllDetailsFromCart fails (IdCart cart) s2 = Inr s3"
  proof (cases "removeAllDetailsFromCart fails (IdCart cart) s2")
    case (Inl e)
    with ok ne cart pos lines o ds b show ?thesis by (simp add: d Let_def)
  next
    case (Inr t)
    with that show ?thesis by simp
  qed
  obtain s4 where
    rs: "updateCartTotalPrice fails (IdCart cart) (- of_int (TotalPrice cart)) s3 = Inr s4"
  proof (cases "updateCartTotalPrice fails (IdCart cart) (- of_int (TotalPrice cart)) s3")
    case (Inl e)
    with ok ne cart pos lines o ds b cl show ?thesis by (simp add: d Let_def)
  next
    case (Inr t)
    with that show ?thesis by simp
  qed
  from ok ne cart pos lines o ds b cl rs have fin: "oid = IdOrder order \<and> s' = s4"
    by (simp add: d Let_def)
  from cl have s3: "s3 = s2\<lparr>CartDetails := filter (\<lambda>d. CartId d \<noteq> IdCart cart) (CartDetails s2)\<rparr>"
    by (auto simp: removeAllDetailsFromCart_def split: if_splits)
  from rs have s4: "s4 = addTotalPrice s3 (IdCart cart) (- of_int (TotalPrice cart))"
    by (auto simp: updateCartTotalPrice_def split: if_splits option.splits)
  from ds b have ds': "createOrderDetails fails (IdOrder order) (arrival ?lines) s1 = (True, s2)"
    by simp
  from createOrderDetails_True [OF ds'] obtain new where
    s2: "s2 = s1\<lparr>OrderDetails := OrderDetails s1 @ new,
                 nextIdOrderDetail := nextIdOrderDetail s1 + int (length (arrival ?lines))\<rparr>"
    and new: "map (\<lambda>x. (OrderId x, ODRecordId x, ODAmount x, ODPrice x)) new =
           map (\<lambda>d. (IdOrder order, RecordId d, Amount d, LinePrice d)) (arrival ?lines)"
    by blast
  from fin have oid: "oid = IdOrder order" by simp
  from fin s4 have s': "s' = addTotalPrice s3 (IdCart cart) (- of_int (TotalPrice cart))" by simp
  from wf have dist: "distinct (map IdCart (Carts s))" by (simp add: wf_def)
  have c3: "Carts s3 = Carts s" by (simp add: s3 s2 s1)
  have carts: "Carts s' = map (\<lambda>c. if IdCart c = IdCart cart then cart\<lparr>TotalPrice := 0\<rparr> else c) (Carts s)"
    unfolding s' using Carts_reset [of s3 cart] dist mem c3 by simp
  have orders: "Orders s' = Orders s @
             [\<lparr>IdOrder = oid, OrderUserEmail = email, PaymentMethod = ''Credit Card'',
               Total = TotalPrice cart, OrderCartId = IdCart cart\<rparr>]"
    unfolding s' by (simp add: s3 s2 s1 oid order)
  have od: "OrderDetails s' = OrderDetails s @ new"
    unfolding s' by (simp add: s3 s2 s1)
  have cd: "CartDetails s' = filter (\<lambda>d. CartId d \<noteq> IdCart cart) (CartDetails s)"
    unfolding s' by (simp add: s3 s2 s1)
  have rec: "Records s' = Records s"
    unfolding s' by (simp add: s3 s2 s1)
  have "mset (map (\<lambda>x. (OrderId x, ODRecordId x, ODAmount x, ODPrice x)) new) =
        image_mset (\<lambda>d. (oid, RecordId d, Amount d, LinePrice d)) (mset (arrival ?lines))"
    by (simp add: new oid)
  also from perm have "mset (arrival ?lines) = mset ?lines" by simp
  finally have ms: "mset (map (\<lambda>x. (OrderId x, ODRecordId x, ODAmount x, ODPrice x)) new) =
             mset (map (\<lambda>d. (oid, RecordId d, Amount d, LinePrice d))
                     (filter (\<lambda>d. CartId d = IdCart cart) (CartDetails s)))"
    by (simp add: lines_eq)
  from lines lines_eq have l: "filter (\<lambda>d. CartId d = IdCart cart) (CartDetails s) \<noteq> []" by simp
  have e: "filter (\<lambda>d. CartId d = IdCart cart) (CartDetails s') = []"
    by (simp add: cd)
  from cart mem en pos l orders od ms cd e carts rec show ?thesis by blast
qed

theorem createOrderFromCart_converts_cart_witness:
  "wf shopAB \<and> (\<forall>ds :: cartdetail_row list. mset (rev ds) = mset ds) \<and>
   createOrderFromCartArriving rev noFaults ''u@x'' shopAB =
     (OrderCreated 1,
      shopAB\<lparr>Carts := [\<lparr>IdCart = 1, UserEmail = ''u@x'', TotalPrice = 0, Enabled = True\<rparr>],
             CartDetails := [],
             Orders := [\<lparr>IdOrder = 1, OrderUserEmail = ''u@x'', PaymentMethod = ''Credit Card'',
                          Total = 2500, OrderCartId = 1\<rparr>],
             OrderDetails := [\<lparr>IdOrderDetail = 1, OrderId = 1, ODRecordId = 2, ODAmount = 1,
                                ODPrice = 500\<rparr>,
                              \<lparr>IdOrderDetail = 2, OrderId = 1, ODRecordId = 1, ODAmount = 2,
                                ODPrice = 1000\<rparr>],
             nextIdOrder := 2, nextIdOrderDetail := 3\<rparr>) \<and>
   (\<exists>cart new.
      getActiveCartByEmail noFaults ''u@x'' shopAB = Inr (Some cart) \<and>
      cart = \<lparr>IdCart = 1, UserEmail = ''u@x'', TotalPrice = 2500, Enabled = True\<rparr> \<and>
      OrderDetails (snd (createOrderFromCartArriving rev noFaults ''u@x'' shopAB)) = new \<and>
      mset (map (\<lambda>x. (OrderId x, ODRecordId x, ODAmount x, ODPrice x)) new) =
        mset (map (\<lambda>d. (1, RecordId d, Amount d, LinePrice d))
                (filter (\<lambda>d. CartId d = IdCart cart) (CartDetails shopAB))) \<and>
      Records (snd (createOrderFromCartArriving rev noFaults ''u@x'' shopAB)) = Records shopAB)"
proof -
  let ?c = "\<lparr>IdCart = 1, UserEmail = ''u@x'', TotalPrice = 2500, Enabled = True\<rparr>"
  let ?s' = "shopAB\<lparr>Carts := [\<lparr>IdCart = 1, UserEmail = ''u@x'', TotalPrice = 0, Enabled = True\<rparr>],
             CartDetails := [],
             Orders := [\<lparr>IdOrder = 1, OrderUserEmail = ''u@x'', PaymentMethod = ''Credit Card'',
                          Total = 2500, OrderCartId = 1\<rparr>],
             OrderDetails := [\<lparr>IdOrderDetail = 1, OrderId = 1, ODRecordId = 2, ODAmount = 1,
                                ODPrice = 500\<rparr>,
                              \<lparr>IdOrderDetail = 2, OrderId = 1, ODRecordId = 1, ODAmount = 2,
                                ODPrice = 1000\<rparr>],
             nextIdOrder := 2, nextIdOrderDetail := 3\<rparr>"
  have h1: "wf shopAB" by (rule wf_shopAB)
  have h2: "\<forall>ds :: cartdetail_row list. mset (rev ds) = mset ds" by simp
  have h3: "createOrderFromCartArriving rev noFaults ''u@x'' shopAB = (OrderCreated 1, ?s')"
    by (simp add: eval_defs)
  have c: "getActiveCartByEmail noFaults ''u@x'' shopAB = Inr (Some ?c)"
    by (simp add: eval_defs)
  have od: "OrderDetails shopAB = []" by (simp add: shopAB_def)
  from createOrderFromCart_converts_cart [OF h1 h2 h3] obtain cart new where
    r: "getActiveCartByEmail noFaults ''u@x'' shopAB = Inr (Some cart)"
      "OrderDetails ?s' = OrderDetails shopAB @ new"
      "mset (map (\<lambda>x. (OrderId x, ODRecordId x, ODAmount x, ODPrice x)) new) =
        mset (map (\<lambda>d. (1, RecordId d, Amount d, LinePrice d))
                (filter (\<lambda>d. CartId d = IdCart cart) (CartDetails shopAB)))"
      "Records ?s' = Records shopAB"
    by blast
  from r(1) c have "cart = ?c" by simp
  moreover from r(2) od have "OrderDetails (snd (createOrderFromCartArriving rev noFaults ''u@x'' shopAB)) = new"
    by (simp add: h3)
  moreover from r(4) have "Records (snd (createOrderFromCartArriving rev noFaults ''u@x'' shopAB)) = Records shopAB"
    by (simp add: h3)
  ultimately show ?thesis using h1 h2 h3 r(1) r(3) by blast
qed

lemma createOrderDetails_succeeds:
  assumes "\<forall>d \<in> set ds. 1 \<le> Amount d \<and> 1 \<le> LinePrice d \<and> \<not> fails (InsertOrderDetail (RecordId d))"
  shows "fst (createOrderDetails fails oid ds t)"
  using assms
proof (induction ds arbitrary: t)
  case Nil
  then show ?case by simp
next
  case (Cons d ds)
  then show ?case by (simp add: createOrderDetail_def)
qed

lemma createOrderFromCart_succeeds:
  assumes "getActiveCartByEmail fails email s = Inr (Some cart)"
    and "0 < TotalPrice cart"
    and "getCartDetailsByCartId fails (IdCart cart) s \<noteq> []"
    and "email \<in> set (Users s)"
    and "\<not> fails InsertOrder" and "\<not> fails DeleteCartDetails" and "\<not> fails UpdateTotalPrice"
    and "\<forall>d \<in> set (arrival (getCartDetailsByCartId fails (IdCart cart) s)).
           1 \<le> Amount d \<and> 1 \<le> LinePrice d \<and> \<not> fails (InsertOrderDetail (RecordId d))"
  shows "fst (createOrderFromCartArriving arrival fails email s) = OrderCreated (nextIdOrder s)"
proof -
  let ?lines = "getCartDetailsByCartId fails (IdCart cart) s"
  let ?o = "\<lparr>IdOrder = nextIdOrder s, OrderUserEmail = email, PaymentMethod = ''Credit Card'',
             Total = TotalPrice cart, OrderCartId = IdCart cart\<rparr>"
  let ?s1 = "s\<lparr>Orders := Orders s @ [?o], nextIdOrder := nextIdOrder s + 1\<rparr>"
  from assms(1) have ne: "email \<noteq> []"
    and f: "find (\<lambda>c. UserEmail c = toLowerCase (trim email) \<and> Enabled c) (Carts s) = Some cart"
    by (auto simp: getActiveCartByEmail_def split: if_splits)
  from f have mem: "cart \<in> set (Carts s)" by (auto dest: find_SomeD)
  from assms(4,5) have o: "createOrder fails email ''Credit Card'' (TotalPrice cart) (IdCart cart) s =
      Inr (?o, ?s1)"
    by (simp add: createOrder_def Let_def)
  obtain b s2 where ds: "createOrderDetails fails (nextIdOrder s) (arrival ?lines) ?s1 = (b, s2)"
    by (cases "createOrderDetails fails (nextIdOrder s) (arrival ?lines) ?s1")
  with createOrderDetails_succeeds [OF assms(8), of "nextIdOrder s" ?s1] have b: "b" by simp
  with ds have ds': "createOrderDetails fails (nextIdOrder s) (arrival ?lines) ?s1 = (True, s2)"
    by simp
  from createOrderDetails_True [OF ds'] have c2: "Carts s2 = Carts s" by auto
  from mem c2 obtain c0 where "find (\<lambda>c. IdCart c = IdCart cart) (Carts s2) = Some c0"
    by (cases "find (\<lambda>c. IdCart c = IdCart cart) (Carts s2)") (auto dest: find_NoneD)
  with ne assms(1,2,3,6,7) o ds' show ?thesis
    by (simp add: createOrderFromCartArriving_def Let_def removeAllDetailsFromCart_def
          updateCartTotalPrice_def)
qed


section \<open>Cart disabling\<close>

lemma updateStock_throws: "\<exists>e. updateStock fails ident amount s = (Inl e, s)"
  by (simp add: updateStock_def elementZero_def split: option.split)

lemma returnStock_Cons: "\<exists>e. returnStock fails (d # ds) s = (Inl e, s)"
proof -
  from updateStock_throws obtain e where
    "updateStock fails (RecordId d) (Amount d) s = (Inl e, s)" by blast
  then show ?thesis by simp
qed



lemma disableCart_with_lines_throws:
  assumes "getActiveCartByEmail fails email s = Inr (Some cart)"
    and "getCartDetailsByCartId fails (IdCart cart) s \<noteq> []"
  shows "\<exists>e. disableCart fails email s = (Inl e, s)"
proof -
  from assms(2) obtain d ds where l: "getCartDetailsByCartId fails (IdCart cart) s = d # ds"
    by (cases "getCartDetailsByCartId fails (IdCart cart) s") auto
  obtain e where "returnStock fails (d # ds) s = (Inl e, s)"
    using returnStock_Cons by blast
  with assms(1) l show ?thesis by (simp add: disableCart_def)
qed


section \<open>One cart per user\<close>

lemma dropWhile_id: "xs = [] \<or> \<not> P (hd xs) \<Longrightarrow> dropWhile P xs = xs"
  by (cases xs) auto

lemma last_dropWhile: "dropWhile P xs \<noteq> [] \<Longrightarrow> last (dropWhile P xs) = last xs"
  by (induction xs) auto

lemma trim_idem: "trim (trim s) = trim s"
proof -
  let ?u = "dropWhile isWhiteSpace s"
  let ?v = "dropWhile isWhiteSpace (rev ?u)"
  have "rev ?v = [] \<or> \<not> isWhiteSpace (hd (rev ?v))"
  proof (cases "?v = []")
    case True
    then show ?thesis by simp
  next
    case False
    have u: "?u \<noteq> []"
    proof
      assume a: "?u = []"
      have "?v = []" unfolding a by simp
      with False show False by simp
    qed
    from False have "hd (rev ?v) = last ?v" by (simp add: hd_rev)
    also from False have "\<dots> = last (rev ?u)" by (rule last_dropWhile)
    also from u have "\<dots> = hd ?u" by (simp add: last_rev)
    finally have "hd (rev ?v) = hd ?u" .
    moreover from u have "\<not> isWhiteSpace (hd ?u)" by (rule hd_dropWhile)
    ultimately show ?thesis by simp
  qed
  then have "dropWhile isWhiteSpace (rev ?v) = rev ?v" by (rule dropWhile_id)
  then show ?thesis by (simp add: trim_def)
qed

lemma trim_toLowerCase: "trim (toLowerCase s) = toLowerCase (trim s)"
proof -
  have c: "isWhiteSpace \<circ> lowerChar = isWhiteSpace"
    by (rule ext) (simp add: isWhiteSpace_lowerChar)
  have a: "dropWhile isWhiteSpace (map lowerChar xs) = map lowerChar (dropWhile isWhiteSpace xs)"
    for xs by (simp add: dropWhile_map c)
  show ?thesis
    by (simp add: trim_def toLowerCase_def a rev_map)
qed

lemma toLowerCase_idem: "toLowerCase (toLowerCase s) = toLowerCase s"
  by (simp add: toLowerCase_def lowerChar_idem)

lemma normalize_idem: "toLowerCase (trim (toLowerCase (trim e))) = toLowerCase (trim e)"
  by (simp add: trim_toLowerCase trim_idem toLowerCase_idem)

lemma distinct_owner_active:
  "distinct (map UserEmail cs) \<Longrightarrow> length (filter (\<lambda>c. UserEmail c = e \<and> Enabled c) cs) \<le> 1"
proof (induction cs)
  case Nil
  then show ?case by simp
next
  case (Cons c cs)
  show ?case
  proof (cases "UserEmail c = e")
    case True
    with Cons.prems have "e \<notin> UserEmail ` set cs" by simp
    then have "filter (\<lambda>c. UserEmail c = e \<and> Enabled c) cs = []"
      by (auto simp: filter_empty_conv)
    then show ?thesis by simp
  next
    case False
    with Cons show ?thesis by simp
  qed
qed

lemma cartFrame_refl [simp]: "cartFrame s s"
  unfolding cartFrame_def by (auto intro: exI [of _ "\<lambda>d. True"])

lemma cartFrame_trans: "cartFrame s t \<Longrightarrow> cartFrame t u \<Longrightarrow> cartFrame s u"
  unfolding cartFrame_def by (elim conjE exE) (simp, metis filter_filter)

lemma cartFrame_wf:
  assumes "cartFrame s t" and "wf s"
  shows "wf t"
proof -
  from assms(1) obtain P where P: "CartDetails t = filter P (CartDetails s)"
    and r: "Records t = Records s" and n: "nextIdCart t = nextIdCart s"
      "nextIdCartDetail t = nextIdCartDetail s"
    and ids: "map IdCart (Carts t) = map IdCart (Carts s)"
    unfolding cartFrame_def by blast
  from ids have im: "IdCart ` set (Carts t) = IdCart ` set (Carts s)" by (metis set_map)
  have b: "\<forall>c \<in> set (Carts t). IdCart c < nextIdCart t"
  proof
    fix c assume "c \<in> set (Carts t)"
    then have "IdCart c \<in> IdCart ` set (Carts s)" using im by blast
    with assms(2) n show "IdCart c < nextIdCart t" by (auto simp: wf_def)
  qed
  from assms(2) have "distinct (map IdCartDetail (filter P (CartDetails s)))"
    by (simp add: wf_def distinct_map_filter)
  with assms(2) b show ?thesis
    unfolding wf_def P r n ids im by auto
qed

lemma cartFrame_owner:
  assumes "cartFrame s t" and "oneCartPerUser s"
  shows "oneCartPerUser t"
proof -
  from assms(1) have "map UserEmail (Carts t) = map UserEmail (Carts s)" "Users t = Users s"
    by (simp_all add: cartFrame_def)
  with assms(2) show ?thesis by (simp add: oneCartPerUser_def del: set_map)
qed

lemma addTotalPrice_owners [simp]:
  "map UserEmail (Carts (addTotalPrice s c q)) = map UserEmail (Carts s)"
  unfolding addTotalPrice_def by (simp del: map_map) (rule map_key_upd, simp)

lemma cartFrame_addTotalPrice: "cartFrame s (addTotalPrice s c q)"
  unfolding cartFrame_def by (auto intro: exI [of _ "\<lambda>d. True"])

lemma saveEnabled_fields [simp]:
  "Users (saveEnabled s c b) = Users s"
  "Records (saveEnabled s c b) = Records s"
  "CartDetails (saveEnabled s c b) = CartDetails s"
  "nextIdCart (saveEnabled s c b) = nextIdCart s"
  "nextIdCartDetail (saveEnabled s c b) = nextIdCartDetail s"
  by (simp_all add: saveEnabled_def)

lemma saveEnabled_ids [simp]:
  "map IdCart (Carts (saveEnabled s c b)) = map IdCart (Carts s)"
  "map UserEmail (Carts (saveEnabled s c b)) = map UserEmail (Carts s)"
  unfolding saveEnabled_def by (simp_all del: map_map) (rule map_key_upd, simp)+

lemma cartFrame_saveEnabled: "cartFrame s (saveEnabled s c b)"
  unfolding cartFrame_def by (auto intro: exI [of _ "\<lambda>d. True"])

lemma cartFrame_enableCart: "cartFrame s (snd (enableCart email s))"
proof -
  let ?f = "\<lambda>c. if UserEmail c = email \<and> Enabled c = False then c\<lparr>Enabled := True\<rparr> else c"
  have s: "snd (enableCart email s) = s\<lparr>Carts := map ?f (Carts s)\<rparr>"
    by (simp add: enableCart_def Let_def split: list.split)
  have "map IdCart (map ?f (Carts s)) = map IdCart (Carts s)"
    by (rule map_key_upd) simp
  moreover have "map UserEmail (map ?f (Carts s)) = map UserEmail (Carts s)"
    by (rule map_key_upd) simp
  ultimately show ?thesis
    unfolding cartFrame_def s by (auto intro: exI [of _ "\<lambda>d. True"])
qed


lemma cartFrame_createOrder:
  "createOrder fails userEmail paymentMethod orderTotal cartId s = Inr (order, s1) \<Longrightarrow> cartFrame s s1"
  unfolding cartFrame_def
  by (auto simp: createOrder_def Let_def split: if_splits intro: exI [of _ "\<lambda>d. True"])

lemma cartFrame_createOrderDetail:
  "createOrderDetail fails oid d t = Inr t1 \<Longrightarrow> cartFrame t t1"
  unfolding cartFrame_def
  by (auto simp: createOrderDetail_def split: if_splits intro: exI [of _ "\<lambda>d. True"])

lemma cartFrame_createOrderDetails: "cartFrame t (snd (createOrderDetails fails oid ds t))"
proof (induction ds arbitrary: t)
  case Nil
  then show ?case by simp
next
  case (Cons d ds)
  show ?case
  proof (cases "createOrderDetail fails oid d t")
    case (Inl e)
    with Cons.IH [of t] show ?thesis by simp
  next
    case (Inr t1)
    from Inr have "cartFrame t t1" by (rule cartFrame_createOrderDetail)
    from cartFrame_trans [OF this Cons.IH [of t1]] Inr show ?thesis by simp
  qed
qed

lemma cartFrame_removeAllDetailsFromCart:
  "removeAllDetailsFromCart fails cartId s = Inr t \<Longrightarrow> cartFrame s t"
  unfolding cartFrame_def
  by (auto simp: removeAllDetailsFromCart_def split: if_splits)

lemma cartFrame_updateCartTotalPrice:
  "updateCartTotalPrice fails cartId q s = Inr t \<Longrightarrow> cartFrame s t"
  by (auto simp: updateCartTotalPrice_def cartFrame_addTotalPrice split: if_splits option.splits)

lemma cartFrame_createOrderFromCart:
  "cartFrame s (snd (createOrderFromCartArriving arrival fails email s))"
proof -
  note d = createOrderFromCartArriving_def
  let ?t = "snd (createOrderFromCartArriving arrival fails email s)"
  consider (same) "?t = s"
    | (run) cart order s1 b s2 where "email \<noteq> []"
        "getActiveCartByEmail fails email s = Inr (Some cart)" "\<not> TotalPrice cart \<le> 0"
        "getCartDetailsByCartId fails (IdCart cart) s \<noteq> []"
        "createOrder fails email ''Credit Card'' (TotalPrice cart) (IdCart cart) s = Inr (order, s1)"
        "createOrderDetails fails (IdOrder order)
           (arrival (getCartDetailsByCartId fails (IdCart cart) s)) s1 = (b, s2)"
  proof (cases "email = []")
    case True
    then have "?t = s" by (simp add: d)
    then show ?thesis by (rule same)
  next
    case ne: False
    show ?thesis
    proof (cases "getActiveCartByEmail fails email s")
      case (Inl e)
      with ne have "?t = s" by (simp add: d)
      then show ?thesis by (rule same)
    next
      case (Inr oc)
      show ?thesis
      proof (cases oc)
        case None
        with ne Inr have "?t = s" by (simp add: d)
        then show ?thesis by (rule same)
      next
        case (Some cart)
        show ?thesis
        proof (cases "TotalPrice cart \<le> 0")
          case True
          with ne Inr Some have "?t = s" by (simp add: d)
          then show ?thesis by (rule same)
        next
          case pos: False
          show ?thesis
          proof (cases "getCartDetailsByCartId fails (IdCart cart) s = []")
            case True
            with ne Inr Some pos have "?t = s" by (simp add: d)
            then show ?thesis by (rule same)
          next
            case lines: False
            show ?thesis
            proof (cases "createOrder fails email ''Credit Card'' (TotalPrice cart) (IdCart cart) s")
              case (Inl e)
              with ne Inr Some pos lines have "?t = s" by (simp add: d)
              then show ?thesis by (rule same)
            next
              case o: (Inr p)
              obtain order s1 where p: "p = (order, s1)" by (cases p)
              obtain b s2 where "createOrderDetails fails (IdOrder order)
                  (arrival (getCartDetailsByCartId fails (IdCart cart) s)) s1 = (b, s2)"
                by (cases "createOrderDetails fails (IdOrder order)
                  (arrival (getCartDetailsByCartId fails (IdCart cart) s)) s1")
              with ne Inr Some pos lines o p show ?thesis by (intro run) simp_all
            qed
          qed
        qed
      qed
    qed
  qed
  then show ?thesis
  proof cases
    case same
    then show ?thesis by simp
  next
    case (run cart order s1 b s2)
    from run(5) have f1: "cartFrame s s1" by (rule cartFrame_createOrder)
    from cartFrame_createOrderDetails [of s1 fails "IdOrder order"
        "arrival (getCartDetailsByCartId fails (IdCart cart) s)"] run(6)
    have "cartFrame s1 s2" by simp
    with f1 have f2: "cartFrame s s2" by (rule cartFrame_trans)
    show ?thesis
    proof (cases b)
      case False
      with run have "?t = s2" by (simp add: d)
      with f2 show ?thesis by simp
    next
      case True
      show ?thesis
      proof (cases "removeAllDetailsFromCart fails (IdCart cart) s2")
        case cl: (Inl e)
        show ?thesis
        proof (cases "updateCartTotalPrice fails (IdCart cart) (- of_int (TotalPrice cart)) s2")
          case (Inl e')
          with run True cl have "?t = s2" by (simp add: d Let_def)
          with f2 show ?thesis by simp
        next
          case (Inr t4)
          with run True cl have "?t = t4" by (simp add: d Let_def)
          moreover from Inr have "cartFrame s2 t4" by (rule cartFrame_updateCartTotalPrice)
          ultimately show ?thesis using f2 by (simp add: cartFrame_trans [of s s2 t4])
        qed
      next
        case cl: (Inr t3)
        then have "cartFrame s2 t3" by (rule cartFrame_removeAllDetailsFromCart)
        with f2 have f3: "cartFrame s t3" by (rule cartFrame_trans)
        show ?thesis
        proof (cases "updateCartTotalPrice fails (IdCart cart) (- of_int (TotalPrice cart)) t3")
          case (Inl e')
          with run True cl have "?t = t3" by (simp add: d Let_def)
          with f3 show ?thesis by simp
        next
          case (Inr t4)
          with run True cl have "?t = t4" by (simp add: d Let_def)
          moreover from Inr have "cartFrame t3 t4" by (rule cartFrame_updateCartTotalPrice)
          ultimately show ?thesis using f3 by (simp add: cartFrame_trans [of s t3 t4])
        qed
      qed
    qed
  qed
qed

lemma disableCart_cases:
  "(\<exists>e. disableCart fails email s = (Inl e, s)) \<or>
   (\<exists>cart. getActiveCartByEmail fails email s = Inr (Some cart) \<and>
      getCartDetailsByCartId fails (IdCart cart) s = [] \<and>
      disableCart fails email s = (Inr (IdCart cart), saveEnabled s (IdCart cart) False))"
proof (cases "getActiveCartByEmail fails email s")
  case (Inl e)
  then show ?thesis by (simp add: disableCart_def)
next
  case (Inr oc)
  show ?thesis
  proof (cases oc)
    case None
    with Inr show ?thesis by (simp add: disableCart_def)
  next
    case (Some cart)
    show ?thesis
    proof (cases "getCartDetailsByCartId fails (IdCart cart) s")
      case Nil
      with Inr Some show ?thesis by (simp add: disableCart_def)
    next
      case (Cons d ds)
      obtain e where "returnStock fails (d # ds) s = (Inl e, s)"
        using returnStock_Cons by blast
      with Inr Some Cons show ?thesis by (simp add: disableCart_def)
    qed
  qed
qed

lemma cartFrame_disableCart: "cartFrame s (snd (disableCart fails email s))"
  using disableCart_cases [of fails email s] by (auto simp: cartFrame_saveEnabled)


lemma Users_frame [simp]:
  "Users (addStock s r a) = Users s"
  "Users (updateCartDetailAmount s i a) = Users s"
  "Users (insertCartDetail s c r a p) = Users s"
  "Users (deleteCartDetail s i) = Users s"
  by (simp_all add: addStock_def updateCartDetailAmount_def insertCartDetail_def
        deleteCartDetail_def)

lemma Carts_frame [simp]:
  "Carts (insertCartDetail s c r a p) = Carts s"
  "Carts (deleteCartDetail s i) = Carts s"
  by (simp_all add: insertCartDetail_def deleteCartDetail_def)

lemma owner_eq:
  assumes "Users t = Users s" and "map UserEmail (Carts t) = map UserEmail (Carts s)"
    and "oneCartPerUser s"
  shows "oneCartPerUser t"
  using assms by (simp add: oneCartPerUser_def del: set_map)

lemma addToCart_owner:
  "Users (snd (addToCart req s)) = Users s"
  "map UserEmail (Carts (snd (addToCart req s))) = map UserEmail (Carts s)"
  by (cases req s rule: addToCart_cases; simp)+

lemma removalCart_same:
  assumes "wf s"
    and "selectCartDetail (snd (removalCart req s)) (IdCart (fst (removalCart req s))) rid = Some line"
  shows "snd (removalCart req s) = s"
proof (cases "selectActiveCart s (toLowerCase (reqEmail req))")
  case (Some c)
  then show ?thesis by (simp add: removalCart_def)
next
  case None
  show ?thesis
  proof (cases "find (\<lambda>c. UserEmail c = toLowerCase (trim (reqEmail req)) \<and> Enabled c) (Carts s)")
    case (Some c)
    with None show ?thesis by (simp add: removalCart_def createCart_def)
  next
    case n: None
    from assms(1) have "find (\<lambda>d. CartId d = nextIdCart s \<and> RecordId d = rid) (CartDetails s) = None"
      by (rule no_line_for_fresh_cart)
    with None assms(2) show ?thesis
      by (simp add: removalCart_def createCart_new [OF n] selectCartDetail_def)
  qed
qed

lemma removeFromCart_owner:
  assumes "wf s"
  shows "Users (snd (removeFromCart req s)) = Users s"
    and "map UserEmail (Carts (snd (removeFromCart req s))) = map UserEmail (Carts s)"
proof -
  have "Users (snd (removeFromCart req s)) = Users s \<and>
        map UserEmail (Carts (snd (removeFromCart req s))) = map UserEmail (Carts s)"
  proof (cases req s rule: removeFromCart_cases)
    case unchanged
    then show ?thesis by simp
  next
    case (removed rid n line)
    from removalCart_same [OF assms removed(2)] have same: "snd (removalCart req s) = s" .
    show ?thesis unfolding removed(4) same by simp
  qed
  then show "Users (snd (removeFromCart req s)) = Users s"
    and "map UserEmail (Carts (snd (removeFromCart req s))) = map UserEmail (Carts s)"
    by simp_all
qed

lemma createUser_invariant:
  assumes "wf s" and "oneCartPerUser s"
  shows "wf (snd (createUser validates email s)) \<and>
         oneCartPerUser (snd (createUser validates email s))"
proof -
  let ?e = "toLowerCase (trim email)"
  let ?s1 = "s\<lparr>Users := Users s @ [?e]\<rparr>"
  show ?thesis
  proof (cases "email \<noteq> [] \<and> validates ?e \<and> ?e \<notin> set (Users s)")
    case False
    with assms show ?thesis by (auto simp: createUser_def Let_def)
  next
    case True
    from assms(2) have sub: "UserEmail ` set (Carts s) \<subseteq> set (Users s)"
      and dist: "distinct (map UserEmail (Carts s))"
      by (simp_all add: oneCartPerUser_def)
    with True have fresh: "?e \<notin> UserEmail ` set (Carts s)" by blast
    then have "\<forall>c \<in> set (Carts s). UserEmail c \<noteq> ?e" by (metis imageI)
    then have n: "find (\<lambda>c. UserEmail c = toLowerCase (trim ?e) \<and> Enabled c) (Carts ?s1) = None"
      by (simp add: normalize_idem find_None_iff2)
    let ?cart = "\<lparr>IdCart = nextIdCart s, UserEmail = ?e, TotalPrice = 0, Enabled = True\<rparr>"
    let ?s2 = "?s1\<lparr>Carts := Carts s @ [?cart], nextIdCart := nextIdCart s + 1\<rparr>"
    from createCart_new [OF n, of True] have c: "createCart ?e True ?s1 = (?cart, ?s2)"
      by (simp add: normalize_idem)
    from assms(1) have "wf ?s1" by (simp add: wf_def)
    from wf_createCart [OF this, of ?e True] c have wf2: "wf ?s2" by simp
    from sub dist fresh have o2: "oneCartPerUser ?s2"
      by (auto simp: oneCartPerUser_def)
    from True c have "snd (createUser validates email s) = (if nextIdCart s = 0 then s else ?s2)"
      by (simp add: createUser_def Let_def)
    with assms wf2 o2 show ?thesis by simp
  qed
qed

lemma applyApi_invariant:
  assumes "wf s" and "oneCartPerUser s"
  shows "wf (applyApi validates x s) \<and> oneCartPerUser (applyApi validates x s)"
proof (cases x)
  case (Register email)
  with createUser_invariant [OF assms] show ?thesis by simp
next
  case (AddToCart req)
  with assms addToCart_wf [of s req] owner_eq [OF addToCart_owner [of req s]]
  show ?thesis by simp
next
  case (RemoveFromCart req)
  with assms removeFromCart_wf [of s req] owner_eq [OF removeFromCart_owner [OF assms(1), of req]]
  show ?thesis by simp
next
  case (DisableCart fails email)
  with assms cartFrame_disableCart [of s fails email] show ?thesis
    by (simp add: cartFrame_wf cartFrame_owner)
next
  case (EnableCart email)
  with assms cartFrame_enableCart [of s email] show ?thesis
    by (simp add: cartFrame_wf cartFrame_owner)
next
  case (CreateOrder arrival fails email)
  with assms cartFrame_createOrderFromCart [of s arrival fails email] show ?thesis
    by (simp add: cartFrame_wf cartFrame_owner)
qed

lemma runApi_invariant:
  "wf s \<Longrightarrow> oneCartPerUser s \<Longrightarrow>
   wf (runApi validates ops s) \<and> oneCartPerUser (runApi validates ops s)"
proof (induction ops arbitrary: s)
  case Nil
  then show ?case by simp
next
  case (Cons x xs)
  from applyApi_invariant [OF Cons.prems, of validates x]
  have "wf (applyApi validates x s)" "oneCartPerUser (applyApi validates x s)" by simp_all
  from Cons.IH [OF this] show ?case by simp
qed

text \<open>
  Claim C6. Take a well-formed store in which every cart belongs to a registered email
  and no email owns two carts, as the store without rows is, and any sequence of
  registrations, \<^verbatim>\<open>addToCart\<close>, \<^verbatim>\<open>removeFromCart\<close>, \<^verbatim>\<open>disableCart\<close>, \<^verbatim>\<open>enableCart\<close>
  and \<^verbatim>\<open>createOrderFromCart\<close> calls, with any arguments, any statements failing and
  any outcome. Afterwards (hence after each operation, a prefix being a sequence) no
  email owns two carts, so every user has at most one active cart. A cart is stored
  by registration only, once for an email: the cart that \<^verbatim>\<open>removeFromCart\<close> creates is
  rolled back, and \<^verbatim>\<open>addToCart\<close> stores none. So a user never has several disabled
  carts for \<^verbatim>\<open>enableCart\<close> to enable.
\<close>

theorem single_active_cart_preserved:
  assumes "wf s" and "oneCartPerUser s"
  shows "oneCartPerUser (runApi validates ops s) \<and>
         length (activeCarts (runApi validates ops s) email) \<le> 1"
proof -
  from runApi_invariant [OF assms] have o: "oneCartPerUser (runApi validates ops s)" by simp
  then have "distinct (map UserEmail (Carts (runApi validates ops s)))"
    by (simp add: oneCartPerUser_def)
  then have "length (activeCarts (runApi validates ops s) email) \<le> 1"
    unfolding activeCarts_def by (rule distinct_owner_active)
  with o show ?thesis by simp
qed

theorem single_active_cart_preserved_witness:
  "wf emptyStore \<and> oneCartPerUser emptyStore \<and>
   runApi (\<lambda>e. True)
     [Register ''U@x '', DisableCart noFaults ''u@x'', RemoveFromCart (userRequest ''u@x'' 1 1),
      EnableCart ''u@x'', Register ''u@x'', EnableCart ''u@x''] emptyStore =
     emptyStore\<lparr>Users := [''u@x''],
                Carts := [\<lparr>IdCart = 1, UserEmail = ''u@x'', TotalPrice = 0, Enabled = True\<rparr>],
                nextIdCart := 2\<rparr> \<and>
   oneCartPerUser (runApi (\<lambda>e. True)
     [Register ''U@x '', DisableCart noFaults ''u@x'', RemoveFromCart (userRequest ''u@x'' 1 1),
      EnableCart ''u@x'', Register ''u@x'', EnableCart ''u@x''] emptyStore) \<and>
   length (activeCarts (runApi (\<lambda>e. True)
     [Register ''U@x '', DisableCart noFaults ''u@x'', RemoveFromCart (userRequest ''u@x'' 1 1),
      EnableCart ''u@x'', Register ''u@x'', EnableCart ''u@x''] emptyStore) ''u@x'') \<le> 1"
proof -
  have h1: "wf emptyStore" by (simp add: wf_def emptyStore_def)
  have h2: "oneCartPerUser emptyStore" by (simp add: oneCartPerUser_def emptyStore_def)
  have r: "runApi (\<lambda>e. True)
     [Register ''U@x '', DisableCart noFaults ''u@x'', RemoveFromCart (userRequest ''u@x'' 1 1),
      EnableCart ''u@x'', Register ''u@x'', EnableCart ''u@x''] emptyStore =
     emptyStore\<lparr>Users := [''u@x''],
                Carts := [\<lparr>IdCart = 1, UserEmail = ''u@x'', TotalPrice = 0, Enabled = True\<rparr>],
                nextIdCart := 2\<rparr>"
    by (simp add: eval_defs)
  from single_active_cart_preserved [OF h1 h2, of "\<lambda>e. True"
     "[Register ''U@x '', DisableCart noFaults ''u@x'', RemoveFromCart (userRequest ''u@x'' 1 1),
      EnableCart ''u@x'', Register ''u@x'', EnableCart ''u@x'']" "''u@x''"] h1 h2 r
  show ?thesis by (simp only: simp_thms)
qed

end
